theory Spec2Isabelle
  imports Complex_Main "HOL-Library.Word"
begin

section \<open>Data: bytes, text, codecs\<close>

text \<open>
  The module under study is \<^verbatim>\<open>sensor_ssh.py\<close>: the classes \<^verbatim>\<open>SQM\<close> (shared methods),
  \<^verbatim>\<open>SQMLE\<close> (network sensor) and \<^verbatim>\<open>SQMLU\<close> (serial sensor).

  Python \<^verbatim>\<open>bytes\<close> are lists of 8-bit words. A Python \<^verbatim>\<open>str\<close> is a sequence of Unicode
  code points, so it is a list of naturals: \<open>length\<close>, indexing and \<^verbatim>\<open>strip\<close> count code
  points, as Python does.
\<close>

type_synonym byte = "8 word"
type_synonym bytes = "byte list"
type_synonym str = "nat list"

text \<open>An ASCII string literal of the source, as a \<^verbatim>\<open>str\<close> and as \<^verbatim>\<open>bytes\<close>.\<close>

definition py_str :: "string \<Rightarrow> str" where
  "py_str s = map of_char s"

definition py_bytes :: "string \<Rightarrow> bytes" where
  "py_bytes s = map of_char s"

text \<open>
  \<^verbatim>\<open>str.isspace\<close> on one code point and \<^verbatim>\<open>str.strip()\<close> with no argument: the characters
  Python removes at both ends are the Unicode white space characters.
\<close>

definition isspace :: "nat \<Rightarrow> bool" where
  "isspace c =
     ((9 \<le> c \<and> c \<le> 13) \<or> (28 \<le> c \<and> c \<le> 32) \<or> c = 133 \<or> c = 160 \<or> c = 5760 \<or>
      (8192 \<le> c \<and> c \<le> 8202) \<or> c = 8232 \<or> c = 8233 \<or> c = 8239 \<or> c = 8287 \<or>
      c = 12288)"

definition strip :: "str \<Rightarrow> str" where
  "strip s = rev (dropWhile isspace (rev (dropWhile isspace s)))"

text \<open>What the specification calls trimmed and newline-free text.\<close>

definition trimmed :: "str \<Rightarrow> bool" where
  "trimmed s = (case s of [] \<Rightarrow> True | c # cs \<Rightarrow> \<not> isspace c \<and> \<not> isspace (last s))"

definition newline_free :: "str \<Rightarrow> bool" where
  "newline_free s = (10 \<notin> set s)"

text \<open>
  The exceptions the modelled code can raise. \<open>EncodeError\<close> and \<open>DecodeError\<close> stand for
  whatever \<^verbatim>\<open>str.encode\<close> and \<^verbatim>\<open>bytes.decode\<close> raise under the configured codec.
  \<open>RecursionError\<close> is what the interpreter raises when a call would nest deeper than
  \<^verbatim>\<open>sys.getrecursionlimit()\<close> allows.
\<close>

datatype error =
    AssertionError
  | EncodeError
  | DecodeError
  | IndexError
  | SerialException
  | RecursionError

text \<open>
  The settings come from the module \<^verbatim>\<open>configs_ssh\<close>, which is not part of the sources, so
  they are parameters of the model. The codec names \<^verbatim>\<open>utf8\<close> and \<^verbatim>\<open>hex\<close> are given by the
  functions \<^verbatim>\<open>s.encode(name)\<close> and \<^verbatim>\<open>b.decode(name)\<close> compute, \<open>None\<close> when the call raises.
  The three pauses \<^verbatim>\<open>long_s\<close>, \<^verbatim>\<open>mid_s\<close>, \<^verbatim>\<open>short_s\<close> are kept as names.
\<close>

record config =
  DEBUG :: bool
  encode_utf8 :: "str \<Rightarrow> bytes option"
  decode_utf8 :: "bytes \<Rightarrow> str option"
  encode_hex :: "str \<Rightarrow> bytes option"
  decode_hex :: "bytes \<Rightarrow> str option"

datatype delay = long_s | mid_s | short_s

subsection \<open>A concrete codec: strict UTF-8\<close>

text \<open>
  Python's \<^verbatim>\<open>"utf-8"\<close> codec with the default strict error handling: shortest form only,
  no surrogates, nothing above U+10FFFF. It instantiates the codec parameters in the
  concrete runs below.
\<close>

definition continuation :: "byte \<Rightarrow> bool" where
  "continuation b = (0x80 \<le> b \<and> b \<le> 0xBF)"

definition tail6 :: "byte \<Rightarrow> nat" where
  "tail6 b = unat b - 0x80"

fun utf8_decode :: "bytes \<Rightarrow> str option" where
  "utf8_decode [] = Some []"
| "utf8_decode (b0 # bs) =
    (if b0 < 0x80 then map_option ((#) (unat b0)) (utf8_decode bs)
     else if 0xC2 \<le> b0 \<and> b0 \<le> 0xDF then
       (case bs of
          b1 # r \<Rightarrow>
            if continuation b1
            then map_option ((#) ((unat b0 - 0xC0) * 64 + tail6 b1)) (utf8_decode r)
            else None
        | _ \<Rightarrow> None)
     else if 0xE0 \<le> b0 \<and> b0 \<le> 0xEF then
       (case bs of
          b1 # b2 # r \<Rightarrow>
            if continuation b1 \<and> continuation b2 \<and>
               (if b0 = 0xE0 then 0xA0 \<le> b1 else if b0 = 0xED then b1 \<le> 0x9F else True)
            then map_option
                   ((#) ((unat b0 - 0xE0) * 4096 + tail6 b1 * 64 + tail6 b2)) (utf8_decode r)
            else None
        | _ \<Rightarrow> None)
     else if 0xF0 \<le> b0 \<and> b0 \<le> 0xF4 then
       (case bs of
          b1 # b2 # b3 # r \<Rightarrow>
            if continuation b1 \<and> continuation b2 \<and> continuation b3 \<and>
               (if b0 = 0xF0 then 0x90 \<le> b1 else if b0 = 0xF4 then b1 \<le> 0x8F else True)
            then map_option
                   ((#) ((unat b0 - 0xF0) * 262144 + tail6 b1 * 4096 + tail6 b2 * 64 + tail6 b3))
                   (utf8_decode r)
            else None
        | _ \<Rightarrow> None)
     else None)"

definition utf8_encode_char :: "nat \<Rightarrow> bytes option" where
  "utf8_encode_char c =
    (if c < 0x80 then Some [of_nat c]
     else if c < 0x800 then Some [of_nat (0xC0 + c div 64), of_nat (0x80 + c mod 64)]
     else if c < 0x10000 then
       (if 0xD800 \<le> c \<and> c \<le> 0xDFFF then None
        else Some [of_nat (0xE0 + c div 4096), of_nat (0x80 + (c div 64) mod 64),
                   of_nat (0x80 + c mod 64)])
     else if c < 0x110000 then
       Some [of_nat (0xF0 + c div 262144), of_nat (0x80 + (c div 4096) mod 64),
             of_nat (0x80 + (c div 64) mod 64), of_nat (0x80 + c mod 64)]
     else None)"

fun utf8_encode :: "str \<Rightarrow> bytes option" where
  "utf8_encode [] = Some []"
| "utf8_encode (c # cs) =
    (case utf8_encode_char c of
       None \<Rightarrow> None
     | Some bs \<Rightarrow> map_option ((@) bs) (utf8_encode cs))"

text \<open>
  A configuration in which both codec names denote UTF-8. For \<^verbatim>\<open>hex\<close> this is the reading
  most favourable to network discovery: the probe can be encoded and replies can be
  decoded into text.
\<close>

definition utf8_config :: "bool \<Rightarrow> config" where
  "utf8_config dbg =
     \<lparr>DEBUG = dbg, encode_utf8 = utf8_encode, decode_utf8 = utf8_decode,
      encode_hex = utf8_encode, decode_hex = utf8_decode\<rparr>"

section \<open>The session object and its transport\<close>

text \<open>
  One receive call on the transport (\<^verbatim>\<open>socket.recv\<close> for SQMLE, \<^verbatim>\<open>Serial.readline\<close> for
  SQMLU) either raises (a timeout on the socket, an I/O error) or returns bytes, possibly
  none (a serial timeout returns \<^verbatim>\<open>b""\<close>).
\<close>

datatype recv_outcome = RecvRaises | RecvBytes bytes

text \<open>The operations a run performs on the transport, on the clock and on stderr, in order.\<close>

datatype action =
    Send bytes
  | Sleep delay
  | Read
  | SetLinger
  | Close
  | Open
  | PrintErr "bytes option"
  | PrintInfo str

text \<open>
  The object's state: \<open>data\<close> is \<^verbatim>\<open>self.data\<close>, the buffer of collected lines; \<open>wire\<close> holds
  the outcomes of the receive calls still to come, in order; \<open>ops\<close> records what has been
  done so far. A receive call on an empty \<open>wire\<close> has no outcome: the run is then \<open>None\<close>
  (the script of the environment was too short to tell how the run goes on). Sending,
  closing and reopening the handle are taken to succeed.
\<close>

record sqm =
  data :: "str list"
  wire :: "recv_outcome list"
  ops :: "action list"

definition perform :: "action \<Rightarrow> sqm \<Rightarrow> sqm" where
  "perform a st = st\<lparr>ops := ops st @ [a]\<rparr>"

text \<open>
  \<^verbatim>\<open>_read_buffer\<close>, lines 228-238 (SQMLE) and 313-323 (SQMLU): the two bodies differ only
  in the receive call.
  \<^verbatim>\<open>
    m = None
    try:
        m = self.s.recv(SOCK_BUF)          # self.s.readline() for SQMLU
        if m.decode(utf8) == "":
            return
        self.data.append(m.decode(utf8).strip())
    except:
        pass
    return m
  \<close>
  When decoding raises, \<^verbatim>\<open>m\<close> is already bound, so the undecodable bytes are returned.
\<close>

definition read_buffer :: "config \<Rightarrow> sqm \<Rightarrow> (bytes option \<times> sqm) option" where
  "read_buffer cfg st =
    (case wire st of
       [] \<Rightarrow> None
     | r # rs \<Rightarrow>
        (let st1 = perform Read (st\<lparr>wire := rs\<rparr>) in
         case r of
           RecvRaises \<Rightarrow> Some (None, st1)
         | RecvBytes m \<Rightarrow>
            (case decode_utf8 cfg m of
               None \<Rightarrow> Some (Some m, st1)
             | Some t \<Rightarrow>
                if t = [] then Some (None, st1)
                else Some (Some m, st1\<lparr>data := data st1 @ [strip t]\<rparr>))))"

text \<open>Python's truth value of \<^verbatim>\<open>bytes | None\<close>: \<^verbatim>\<open>None\<close> and \<^verbatim>\<open>b""\<close> are false.\<close>

fun truthy :: "bytes option \<Rightarrow> bool" where
  "truthy None = False"
| "truthy (Some m) = (m \<noteq> [])"

text \<open>
  The loop of \<^verbatim>\<open>_close_connection\<close>:
  \<^verbatim>\<open>
    request = ""
    r = True
    while r:  # wait until device stops responding
        r = self._read_buffer()
        request += str(r)
  \<close>
  \<^verbatim>\<open>request\<close> is a local variable that nothing reads afterwards; it is left out.
\<close>

function close_loop :: "config \<Rightarrow> sqm \<Rightarrow> sqm option" where
  "close_loop cfg st =
    (case read_buffer cfg st of
       None \<Rightarrow> None
     | Some (r, st') \<Rightarrow> if truthy r then close_loop cfg st' else Some st')"
  by pat_completeness auto
termination
  by (relation "measure (\<lambda>(cfg, st). length (wire st))")
     (auto simp: read_buffer_def perform_def Let_def
           split: list.splits recv_outcome.splits option.splits if_splits)

declare close_loop.simps [simp del]

text \<open>
  \<^verbatim>\<open>SQMLE._close_connection\<close> (lines 218-226) sets \<^verbatim>\<open>SO_LINGER\<close>, runs the loop and closes
  the socket; \<^verbatim>\<open>SQMLU._close_connection\<close> (lines 304-311) runs the loop and closes the port.
\<close>

definition SQMLE_close_connection :: "config \<Rightarrow> sqm \<Rightarrow> sqm option" where
  "SQMLE_close_connection cfg st = map_option (perform Close) (close_loop cfg (perform SetLinger st))"

definition SQMLU_close_connection :: "config \<Rightarrow> sqm \<Rightarrow> sqm option" where
  "SQMLU_close_connection cfg st = map_option (perform Close) (close_loop cfg st)"

text \<open>
  \<^verbatim>\<open>start_connection\<close> (lines 211-215 and 300-302) opens a fresh handle at \<^verbatim>\<open>self.addr\<close>.
\<close>

definition SQMLE_start_connection :: "sqm \<Rightarrow> sqm" where
  "SQMLE_start_connection st = perform Open st"

definition SQMLU_start_connection :: "sqm \<Rightarrow> sqm" where
  "SQMLU_start_connection st = perform Open st"

text \<open>
  \<^verbatim>\<open>_send_command\<close> (lines 240-246 and 325-331): \<^verbatim>\<open>self.s.send(s.encode(utf8))\<close>, with
  \<^verbatim>\<open>write\<close> for \<^verbatim>\<open>send\<close> on the serial port.
\<close>

definition SQMLE_send_command :: "config \<Rightarrow> str \<Rightarrow> sqm \<Rightarrow> error + sqm" where
  "SQMLE_send_command cfg s st =
    (case encode_utf8 cfg s of None \<Rightarrow> Inl EncodeError | Some b \<Rightarrow> Inr (perform (Send b) st))"

definition SQMLU_send_command :: "config \<Rightarrow> str \<Rightarrow> sqm \<Rightarrow> error + sqm" where
  "SQMLU_send_command cfg s st =
    (case encode_utf8 cfg s of None \<Rightarrow> Inl EncodeError | Some b \<Rightarrow> Inr (perform (Send b) st))"

text \<open>The class of the object decides which body a method call on \<^verbatim>\<open>self\<close> runs.\<close>

datatype kind = SQM_LE | SQM_LU

fun close_connection :: "kind \<Rightarrow> config \<Rightarrow> sqm \<Rightarrow> sqm option" where
  "close_connection SQM_LE = SQMLE_close_connection"
| "close_connection SQM_LU = SQMLU_close_connection"

fun start_connection :: "kind \<Rightarrow> sqm \<Rightarrow> sqm" where
  "start_connection SQM_LE = SQMLE_start_connection"
| "start_connection SQM_LU = SQMLU_start_connection"

fun send_command :: "kind \<Rightarrow> config \<Rightarrow> str \<Rightarrow> sqm \<Rightarrow> error + sqm" where
  "send_command SQM_LE = SQMLE_send_command"
| "send_command SQM_LU = SQMLU_send_command"

text \<open>
  \<^verbatim>\<open>SQM._reset_device\<close>, lines 52-56: close, \<^verbatim>\<open>time.sleep(short_s)\<close>, reopen.
\<close>

definition reset_device :: "kind \<Rightarrow> config \<Rightarrow> sqm \<Rightarrow> sqm option" where
  "reset_device k cfg st =
    (case close_connection k cfg st of
       None \<Rightarrow> None
     | Some st1 \<Rightarrow> Some (start_connection k (perform (Sleep short_s) st1)))"

text \<open>
  \<^verbatim>\<open>SQM._return_collected\<close>, lines 114-122: copy the buffer, clear it, return the copy.
\<close>

definition return_collected :: "sqm \<Rightarrow> str list \<times> sqm" where
  "return_collected st = (let d = data st in (d, st\<lparr>data := []\<rparr>))"

section \<open>The command and response exchange\<close>

text \<open>
  The sanity check of \<^verbatim>\<open>send_and_receive\<close>:
  \<^verbatim>\<open>
    try:
        assert byte_m != None
        m = byte_m.decode(utf8)
    except: ...
  \<close>
\<close>

definition sanity_check :: "config \<Rightarrow> bytes option \<Rightarrow> error + str" where
  "sanity_check cfg byte_m =
    (case byte_m of
       None \<Rightarrow> Inl AssertionError
     | Some b \<Rightarrow> (case decode_utf8 cfg b of None \<Rightarrow> Inl DecodeError | Some m \<Rightarrow> Inr m))"

text \<open>
  \<^verbatim>\<open>send_and_receive\<close> retries by calling itself (line 91, and line 361 in the override), so
  every retry nests one call deeper, and the interpreter bounds the nesting. \<open>room\<close> is the
  number of frames the interpreter can still push when a call is made: the value of
  \<^verbatim>\<open>sys.getrecursionlimit()\<close> minus the depth of the caller. A call of a method written in
  Python takes one frame for as long as it runs and raises \<open>RecursionError\<close> when there is
  none; calls into built-in code (\<^verbatim>\<open>time.sleep\<close>, \<^verbatim>\<open>print\<close>, \<^verbatim>\<open>encode\<close>, \<^verbatim>\<open>decode\<close>, the
  socket and the serial port) take none, as in CPython from version 3.12 on.

  \<^verbatim>\<open>self._reset_device()\<close> nests three deep: its own frame, the frame of
  \<^verbatim>\<open>self._close_connection()\<close>, and the frame of \<^verbatim>\<open>self._read_buffer()\<close> in the closing loop
  (\<^verbatim>\<open>self.start_connection()\<close> nests two deep). With \<open>r\<close> frames left for the call, it
  raises at the call itself (\<open>r = 0\<close>), at the call of \<^verbatim>\<open>_close_connection\<close> (\<open>r = 1\<close>), or at
  the first call of \<^verbatim>\<open>_read_buffer\<close> (\<open>r = 2\<close>), which for SQMLE comes after \<^verbatim>\<open>setsockopt\<close>;
  no handler is in the way. The result pairs the exception raised, if any, with the state
  reached.
\<close>

definition reset_device_within ::
  "nat \<Rightarrow> kind \<Rightarrow> config \<Rightarrow> sqm \<Rightarrow> (error option \<times> sqm) option" where
  "reset_device_within r k cfg st =
    (if r = 0 then Some (Some RecursionError, st)
     else if r = 1 then Some (Some RecursionError, st)
     else if r = 2 then
       Some (Some RecursionError, case k of SQM_LE \<Rightarrow> perform SetLinger st | SQM_LU \<Rightarrow> st)
     else map_option (Pair None) (reset_device k cfg st))"

text \<open>
  \<^verbatim>\<open>SQM.send_and_receive\<close>, lines 63-93, run on an object of class \<open>k\<close> that inherits it
  (so that the call \<^verbatim>\<open>self.send_and_receive(s, tries - 1)\<close> runs the same body again), with
  \<open>room\<close> frames left when it is called. With no frame left the call itself raises
  \<open>RecursionError\<close>; with one, the call \<^verbatim>\<open>self._send_command(s)\<close> on line 74 does (it is not
  inside the \<^verbatim>\<open>try\<close>, and neither is \<^verbatim>\<open>self._read_buffer()\<close> on line 76, which needs as much).
  The calls in the handler have \<open>room - 1\<close> frames left.
  The result is \<open>None\<close> when the script of receive outcomes ends before the call does;
  otherwise it is the raised exception or the returned string, with the state reached.
  An exception raised in the handler, by the reset or by the inner call, leaves the call,
  which then prints nothing.
\<close>

function SQM_send_and_receive ::
  "kind \<Rightarrow> config \<Rightarrow> nat \<Rightarrow> str \<Rightarrow> int \<Rightarrow> sqm \<Rightarrow> ((error + str) \<times> sqm) option" where
  "SQM_send_and_receive k cfg room s tries st =
    (if room < 2 then Some (Inl RecursionError, st)
     else
      (case send_command k cfg s st of
         Inl e \<Rightarrow> Some (Inl e, st)
       | Inr st1 \<Rightarrow>
          (case read_buffer cfg (perform (Sleep long_s) st1) of
             None \<Rightarrow> None
           | Some (byte_m, st2) \<Rightarrow>
              (case sanity_check cfg byte_m of
                 Inr m \<Rightarrow> Some (Inr m, st2)
               | Inl e \<Rightarrow>
                  if tries \<le> 0 then
                    (let st3 = perform (PrintErr byte_m) st2
                     in if DEBUG cfg then Some (Inl e, st3) else Some (Inr [], st3))
                  else
                    (case reset_device_within (room - 1) k cfg (perform (Sleep mid_s) st2) of
                       None \<Rightarrow> None
                     | Some (Some e', st3) \<Rightarrow> Some (Inl e', st3)
                     | Some (None, st3) \<Rightarrow>
                        (case SQM_send_and_receive k cfg (room - 1) s (tries - 1)
                                (perform (Sleep mid_s) st3) of
                           None \<Rightarrow> None
                         | Some (Inl e', st4) \<Rightarrow> Some (Inl e', st4)
                         | Some (Inr m, st4) \<Rightarrow> Some (Inr m, perform (PrintInfo m) st4)))))))"
  by pat_completeness auto
termination
  by (relation "measure (\<lambda>(k, cfg, room, s, tries, st). nat tries)") auto

declare SQM_send_and_receive.simps [simp del]

text \<open>
  \<^verbatim>\<open>SQMLU.send_and_receive\<close>, lines 333-363: the override in the serial class, translated
  from its own text, calling the methods of \<^verbatim>\<open>SQMLU\<close>.
\<close>

function SQMLU_send_and_receive ::
  "config \<Rightarrow> nat \<Rightarrow> str \<Rightarrow> int \<Rightarrow> sqm \<Rightarrow> ((error + str) \<times> sqm) option" where
  "SQMLU_send_and_receive cfg room s tries st =
    (if room < 2 then Some (Inl RecursionError, st)
     else
      (case SQMLU_send_command cfg s st of
         Inl e \<Rightarrow> Some (Inl e, st)
       | Inr st1 \<Rightarrow>
          (case read_buffer cfg (perform (Sleep long_s) st1) of
             None \<Rightarrow> None
           | Some (byte_m, st2) \<Rightarrow>
              (case sanity_check cfg byte_m of
                 Inr m \<Rightarrow> Some (Inr m, st2)
               | Inl e \<Rightarrow>
                  if tries \<le> 0 then
                    (let st3 = perform (PrintErr byte_m) st2
                     in if DEBUG cfg then Some (Inl e, st3) else Some (Inr [], st3))
                  else
                    (case reset_device_within (room - 1) SQM_LU cfg (perform (Sleep mid_s) st2) of
                       None \<Rightarrow> None
                     | Some (Some e', st3) \<Rightarrow> Some (Inl e', st3)
                     | Some (None, st3) \<Rightarrow>
                        (case SQMLU_send_and_receive cfg (room - 1) s (tries - 1)
                                (perform (Sleep mid_s) st3) of
                           None \<Rightarrow> None
                         | Some (Inl e', st4) \<Rightarrow> Some (Inl e', st4)
                         | Some (Inr m, st4) \<Rightarrow> Some (Inr m, perform (PrintInfo m) st4)))))))"
  by pat_completeness auto
termination
  by (relation "measure (\<lambda>(cfg, room, s, tries, st). nat tries)") auto

declare SQMLU_send_and_receive.simps [simp del]

text \<open>
  On an object of class \<^verbatim>\<open>SQMLU\<close> the name \<^verbatim>\<open>self.send_and_receive\<close> is bound to the
  override. This is the body of \<^verbatim>\<open>SQM.send_and_receive\<close> (lines 63-93 again) run on such an
  object, as by \<^verbatim>\<open>SQM.send_and_receive(obj, s, tries)\<close>: its inner call runs the override.
\<close>

definition SQM_send_and_receive_late_bound ::
  "config \<Rightarrow> nat \<Rightarrow> str \<Rightarrow> int \<Rightarrow> sqm \<Rightarrow> ((error + str) \<times> sqm) option" where
  "SQM_send_and_receive_late_bound cfg room s tries st =
    (if room < 2 then Some (Inl RecursionError, st)
     else
      (case send_command SQM_LU cfg s st of
         Inl e \<Rightarrow> Some (Inl e, st)
       | Inr st1 \<Rightarrow>
          (case read_buffer cfg (perform (Sleep long_s) st1) of
             None \<Rightarrow> None
           | Some (byte_m, st2) \<Rightarrow>
              (case sanity_check cfg byte_m of
                 Inr m \<Rightarrow> Some (Inr m, st2)
               | Inl e \<Rightarrow>
                  if tries \<le> 0 then
                    (let st3 = perform (PrintErr byte_m) st2
                     in if DEBUG cfg then Some (Inl e, st3) else Some (Inr [], st3))
                  else
                    (case reset_device_within (room - 1) SQM_LU cfg (perform (Sleep mid_s) st2) of
                       None \<Rightarrow> None
                     | Some (Some e', st3) \<Rightarrow> Some (Inl e', st3)
                     | Some (None, st3) \<Rightarrow>
                        (case SQMLU_send_and_receive cfg (room - 1) s (tries - 1)
                                (perform (Sleep mid_s) st3) of
                           None \<Rightarrow> None
                         | Some (Inl e', st4) \<Rightarrow> Some (Inl e', st4)
                         | Some (Inr m, st4) \<Rightarrow> Some (Inr m, perform (PrintInfo m) st4)))))))"

section \<open>Device discovery\<close>

subsection \<open>Network discovery: \<^verbatim>\<open>SQMLE._search\<close>, lines 170-209\<close>

text \<open>
  One pass of the polling loop starts with \<^verbatim>\<open>self.s.recvfrom(30)\<close> on the non-blocking
  socket: it raises when no datagram is pending, or returns a payload and the sender's
  \<^verbatim>\<open>(host, port)\<close>. Each pass is paired with the reading \<^verbatim>\<open>time.time()\<close> gives if the handler
  of that pass asks for it; clock readings are real numbers.
\<close>

type_synonym address = "str \<times> nat"

datatype dgram = NoDatagram | Datagram bytes address

text \<open>
  The test \<^verbatim>\<open>buf.decode(hex)[3] == "f7"\<close>: decoding may raise, indexing raises on a text
  of fewer than four characters, and the comparison is between a one-character string and
  the two-character string \<^verbatim>\<open>"f7"\<close>.
\<close>

definition marker_check :: "config \<Rightarrow> bytes \<Rightarrow> error + bool" where
  "marker_check cfg buf =
    (case decode_hex cfg buf of
       None \<Rightarrow> Inl DecodeError
     | Some t \<Rightarrow> if length t \<le> 3 then Inl IndexError else Inr ([t ! 3] = py_str ''f7''))"

text \<open>The slice \<^verbatim>\<open>buf.decode(hex)[24:30]\<close> printed for a reply that passes the test.\<close>

definition mac_of :: "config \<Rightarrow> bytes \<Rightarrow> str" where
  "mac_of cfg buf = (case decode_hex cfg buf of None \<Rightarrow> [] | Some t \<Rightarrow> take 6 (drop 24 t))"

text \<open>
  The loop:
  \<^verbatim>\<open>
    addr = [None, None]
    while True:
        try:
            (buf, addr) = self.s.recvfrom(30)
            if buf.decode(hex)[3] == "f7":
                print("Received from %s: MAC: %s" % (addr, buf.decode(hex)[24:30]), ...)
        except:
            # Timeout in seconds. Allow all devices time to respond
            if time.time() - starttime > 3:
                break
            pass
  \<close>
  The state of the loop is \<^verbatim>\<open>addr\<close> and the list of replies printed so far. The loop has no
  other exit than the \<^verbatim>\<open>break\<close>; when the passes run out before it, the result is \<open>None\<close>
  (the method is still polling). Creating the socket and sending the probe are taken to
  succeed.
\<close>

fun search_loop ::
  "config \<Rightarrow> real \<Rightarrow> (dgram \<times> real) list \<Rightarrow> address option \<Rightarrow> (address \<times> str) list \<Rightarrow>
   (address option \<times> (address \<times> str) list) option" where
  "search_loop cfg starttime [] addr printed = None"
| "search_loop cfg starttime ((NoDatagram, now) # evs) addr printed =
    (if now - starttime > 3 then Some (addr, printed)
     else search_loop cfg starttime evs addr printed)"
| "search_loop cfg starttime ((Datagram buf a, now) # evs) addr printed =
    (case marker_check cfg buf of
       Inl e \<Rightarrow>
        (if now - starttime > 3 then Some (Some a, printed)
         else search_loop cfg starttime evs (Some a) printed)
     | Inr accepted \<Rightarrow>
        (if accepted
         then search_loop cfg starttime evs (Some a) (printed @ [(a, mac_of cfg buf)])
         else search_loop cfg starttime evs (Some a) printed))"

text \<open>
  The whole method: the probe \<^verbatim>\<open>"000000f6".encode(hex)\<close> is sent (an exception of
  \<^verbatim>\<open>encode\<close> leaves the method), the loop runs, and then
  \<^verbatim>\<open>
    try:
        assert addr[0] != None
    except:
        print("ERR. Device not found!", file=sys.stderr)
        raise
    else:
        return str(addr[0])
  \<close>
\<close>

definition SQMLE_search ::
  "config \<Rightarrow> real \<Rightarrow> (dgram \<times> real) list \<Rightarrow> ((error + str) \<times> (address \<times> str) list) option" where
  "SQMLE_search cfg starttime evs =
    (case encode_hex cfg (py_str ''000000f6'') of
       None \<Rightarrow> Some (Inl EncodeError, [])
     | Some probe \<Rightarrow>
        (case search_loop cfg starttime evs None [] of
           None \<Rightarrow> None
         | Some (addr, printed) \<Rightarrow>
            Some (case addr of None \<Rightarrow> Inl AssertionError | Some (host, port) \<Rightarrow> Inr host,
                  printed)))"

subsection \<open>Serial discovery: \<^verbatim>\<open>SQMLU._search\<close>, lines 270-298\<close>

text \<open>\<^verbatim>\<open>str(num)\<close> for a number of \<^verbatim>\<open>range(100)\<close>, and the two candidate lists.\<close>

definition str_of_num :: "nat \<Rightarrow> str" where
  "str_of_num n = (if n < 10 then [48 + n] else [48 + n div 10, 48 + n mod 10])"

definition ports_unix :: "str list" where
  "ports_unix = map (\<lambda>num. py_str ''/dev/ttyUSB'' @ str_of_num num) [0..<100]"

definition ports_win :: "str list" where
  "ports_win = map (\<lambda>num. py_str ''COM'' @ str_of_num num) [0..<100]"

text \<open>
  The candidates for a value of \<^verbatim>\<open>sys.platform\<close>:
  \<^verbatim>\<open>
    ports: list[str] = []
    if os_in_use == "linux2":
        ports = ports_unix
    elif os_in_use == "win32":
        ports = ports_win
  \<close>
\<close>

definition candidate_ports :: "str \<Rightarrow> str list" where
  "candidate_ports os_in_use =
    (if os_in_use = py_str ''linux2'' then ports_unix
     else if os_in_use = py_str ''win32'' then ports_win
     else [])"

text \<open>
  What a port does when probed: \<^verbatim>\<open>serial.Serial(port, LU_BAUD, timeout=1)\<close> raises, or the
  port opens and \<^verbatim>\<open>readline()\<close> returns some bytes (none after a timeout). Writing to and
  reading from a port that has opened are taken not to raise.
\<close>

datatype probe = CannotOpen | Answers bytes

text \<open>
  The scan:
  \<^verbatim>\<open>
    used_port = None
    for port in ports:
        conn_test = serial.Serial(port, LU_BAUD, timeout=1)
        conn_test.write("ix".encode(utf8))
        if conn_test.readline().decode(utf8)[0] == "i":
            used_port = port
            break
  \<close>
  No statement of the loop is inside a \<^verbatim>\<open>try\<close>, so an exception leaves the method.
  \<open>probe_port\<close> is the body of the loop up to the comparison: the exception raised, or
  whether the first character of the answer is \<^verbatim>\<open>"i"\<close>. The second component of the result of
  \<open>scan_ports\<close> lists the ports on which \<^verbatim>\<open>serial.Serial\<close> was called.
\<close>

definition probe_port :: "config \<Rightarrow> probe \<Rightarrow> error + bool" where
  "probe_port cfg p =
    (case p of
       CannotOpen \<Rightarrow> Inl SerialException
     | Answers line \<Rightarrow>
        (case encode_utf8 cfg (py_str ''ix'') of
           None \<Rightarrow> Inl EncodeError
         | Some probe_bytes \<Rightarrow>
            (case decode_utf8 cfg line of
               None \<Rightarrow> Inl DecodeError
             | Some t \<Rightarrow>
                (case t of
                   [] \<Rightarrow> Inl IndexError
                 | c # cs \<Rightarrow> Inr ([c] = py_str ''i'')))))"

fun scan_ports ::
  "config \<Rightarrow> (str \<Rightarrow> probe) \<Rightarrow> str list \<Rightarrow> str list \<Rightarrow> (error + str option) \<times> str list" where
  "scan_ports cfg env [] tried = (Inr None, tried)"
| "scan_ports cfg env (port # ports) tried =
    (case probe_port cfg (env port) of
       Inl e \<Rightarrow> (Inl e, tried @ [port])
     | Inr matches \<Rightarrow>
        if matches then (Inr (Some port), tried @ [port])
        else scan_ports cfg env ports (tried @ [port]))"

text \<open>
  The whole method, ending in
  \<^verbatim>\<open>
    try:
        assert used_port != None
    except:
        print("ERR. Device not found!", file=sys.stderr)
        raise
    else:
        return used_port
  \<close>
\<close>

definition SQMLU_search :: "config \<Rightarrow> str \<Rightarrow> (str \<Rightarrow> probe) \<Rightarrow> (error + str) \<times> str list" where
  "SQMLU_search cfg os_in_use env =
    (case scan_ports cfg env (candidate_ports os_in_use) [] of
       (Inl e, tried) \<Rightarrow> (Inl e, tried)
     | (Inr None, tried) \<Rightarrow> (Inl AssertionError, tried)
     | (Inr (Some used_port), tried) \<Rightarrow> (Inr used_port, tried))"

section \<open>Vocabulary of the properties\<close>

text \<open>
  What \<^verbatim>\<open>_read_buffer\<close> returns for one receive outcome, and the lines it appends to
  \<^verbatim>\<open>self.data\<close> (lemma \<open>read_buffer_eq\<close> below relates both to \<open>read_buffer\<close>).
\<close>

definition returned :: "config \<Rightarrow> recv_outcome \<Rightarrow> bytes option" where
  "returned cfg r =
    (case r of
       RecvRaises \<Rightarrow> None
     | RecvBytes m \<Rightarrow>
        (case decode_utf8 cfg m of None \<Rightarrow> Some m | Some t \<Rightarrow> if t = [] then None else Some m))"

definition stored :: "config \<Rightarrow> recv_outcome \<Rightarrow> str list" where
  "stored cfg r =
    (case r of
       RecvRaises \<Rightarrow> []
     | RecvBytes m \<Rightarrow>
        (case decode_utf8 cfg m of None \<Rightarrow> [] | Some t \<Rightarrow> if t = [] then [] else [strip t]))"

text \<open>
  A read attempt of \<^verbatim>\<open>send_and_receive\<close> fails when the receive call raises, when the
  payload cannot be decoded, or when it decodes to the empty string; \<open>failure\<close> gives the
  exception the sanity check then raises, and \<open>None\<close> for a read that succeeds.
\<close>

definition failure :: "config \<Rightarrow> recv_outcome \<Rightarrow> error option" where
  "failure cfg r =
    (case r of
       RecvRaises \<Rightarrow> Some AssertionError
     | RecvBytes m \<Rightarrow>
        (case decode_utf8 cfg m of
           None \<Rightarrow> Some DecodeError
         | Some t \<Rightarrow> if t = [] then Some AssertionError else None))"

text \<open>
  The receive outcomes one run of the closing loop consumes: reads that return data, then
  one read that returns nothing.
\<close>

fun drains :: "config \<Rightarrow> recv_outcome list \<Rightarrow> bool" where
  "drains cfg [] = False"
| "drains cfg (r # rs) = (if truthy (returned cfg r) then drains cfg rs else rs = [])"

text \<open>
  A failed attempt followed by a reconnect consumes the failing outcome \<open>f\<close> and the
  outcomes \<open>d\<close> of the closing loop. \<open>script\<close> lays such cycles out on the wire, and
  \<open>cycles_ok\<close> says that each of them is one.
\<close>

definition script :: "(recv_outcome \<times> recv_outcome list) list \<Rightarrow> recv_outcome list" where
  "script cycles = concat (map (\<lambda>(f, d). f # d) cycles)"

definition cycles_ok :: "config \<Rightarrow> (recv_outcome \<times> recv_outcome list) list \<Rightarrow> bool" where
  "cycles_ok cfg cycles = list_all (\<lambda>(f, d). failure cfg f \<noteq> None \<and> drains cfg d) cycles"

text \<open>The operations of one failed attempt with its reconnect, and of a list of them.\<close>

definition linger :: "kind \<Rightarrow> action list" where
  "linger k = (case k of SQM_LE \<Rightarrow> [SetLinger] | SQM_LU \<Rightarrow> [])"






text \<open>
  Network discovery: a pass of the polling loop ends in the handler when no datagram is
  pending or the marker test raises; the loop breaks at such a pass once more than three
  seconds have gone by. \<open>last_sender\<close> is the value of \<^verbatim>\<open>addr\<close> after a list of passes.
\<close>

definition pass_raises :: "config \<Rightarrow> dgram \<Rightarrow> bool" where
  "pass_raises cfg ev =
    (case ev of
       NoDatagram \<Rightarrow> True
     | Datagram buf a \<Rightarrow> (case marker_check cfg buf of Inl e \<Rightarrow> True | Inr accepted \<Rightarrow> False))"

definition breaks :: "config \<Rightarrow> real \<Rightarrow> dgram \<times> real \<Rightarrow> bool" where
  "breaks cfg starttime p = (pass_raises cfg (fst p) \<and> snd p - starttime > 3)"

fun last_sender :: "address option \<Rightarrow> dgram list \<Rightarrow> address option" where
  "last_sender addr [] = addr"
| "last_sender addr (NoDatagram # evs) = last_sender addr evs"
| "last_sender addr (Datagram buf a # evs) = last_sender (Some a) evs"

text \<open>
  The string a call of \<^verbatim>\<open>send_and_receive\<close> returns, related to the receive outcomes \<open>c\<close>
  it consumed: it is empty or the decoded text of one of the payloads.
\<close>

definition payload_of :: "config \<Rightarrow> recv_outcome list \<Rightarrow> error + str \<Rightarrow> bool" where
  "payload_of cfg c res =
    (case res of
       Inl e \<Rightarrow> True
     | Inr t \<Rightarrow> t = [] \<or> (\<exists>m. RecvBytes m \<in> set c \<and> decode_utf8 cfg m = Some t \<and> t \<noteq> []))"

text \<open>
  A freshly constructed object (\<^verbatim>\<open>self.data = []\<close>, nothing done yet) whose transport will
  deliver the receive outcomes \<open>w\<close>; the concrete runs start from it.
\<close>

definition fresh :: "recv_outcome list \<Rightarrow> sqm" where
  "fresh w = \<lparr>data = [], wire = w, ops = []\<rparr>"

section \<open>Properties of the transport operations\<close>

text \<open>The definitions a concrete run unfolds.\<close>

lemmas run_defs = utf8_config_def py_str_def py_bytes_def utf8_encode_char_def fresh_def
  cycles_ok_def failure_def returned_def stored_def script_def continuation_def tail6_def

lemma read_buffer_eq:
  "read_buffer cfg st =
    (case wire st of
       [] \<Rightarrow> None
     | r # rs \<Rightarrow>
        Some (returned cfg r,
              st\<lparr>wire := rs, ops := ops st @ [Read], data := data st @ stored cfg r\<rparr>))"
  by (simp add: read_buffer_def returned_def stored_def perform_def Let_def
           split: list.splits recv_outcome.splits option.splits)

lemma read_buffer_Cons:
  "wire st = r # rs \<Longrightarrow>
   read_buffer cfg st =
     Some (returned cfg r, st\<lparr>wire := rs, ops := ops st @ [Read], data := data st @ stored cfg r\<rparr>)"
  by (simp add: read_buffer_eq)

lemma read_buffer_Nil: "wire st = [] \<Longrightarrow> read_buffer cfg st = None"
  by (simp add: read_buffer_def)

lemma close_loop_drains:
  "drains cfg d \<Longrightarrow> wire st = d @ rest \<Longrightarrow>
   close_loop cfg st =
     Some (st\<lparr>wire := rest, ops := ops st @ replicate (length d) Read,
              data := data st @ concat (map (stored cfg) d)\<rparr>)"
proof (induction d arbitrary: st)
  case Nil
  then show ?case by simp
next
  case (Cons r rs)
  from Cons.prems(2) have w: "wire st = r # (rs @ rest)" by simp
  show ?case
  proof (cases "truthy (returned cfg r)")
    case True
    with Cons.prems(1) have d: "drains cfg rs" by simp
    let ?st1 = "st\<lparr>wire := rs @ rest, ops := ops st @ [Read], data := data st @ stored cfg r\<rparr>"
    have "close_loop cfg st = close_loop cfg ?st1"
      by (subst close_loop.simps) (simp add: read_buffer_Cons [OF w] True)
    also have "\<dots> = Some (?st1\<lparr>wire := rest, ops := ops ?st1 @ replicate (length rs) Read,
              data := data ?st1 @ concat (map (stored cfg) rs)\<rparr>)"
      by (rule Cons.IH [OF d]) simp
    finally show ?thesis by (simp add: replicate_append_same)
  next
    case False
    with Cons.prems(1) have "rs = []" by simp
    then show ?thesis
      by (subst close_loop.simps) (simp add: read_buffer_Cons [OF w] False)
  qed
qed

lemma close_loop_Some:
  "close_loop cfg st = Some st' \<Longrightarrow> \<exists>d. drains cfg d \<and> wire st = d @ wire st'"
proof (induction cfg st rule: close_loop.induct)
  case (1 cfg st)
  show ?case
  proof (cases "wire st")
    case Nil
    with "1.prems" show ?thesis
      by (subst (asm) close_loop.simps) (simp add: read_buffer_Nil)
  next
    case (Cons r rs)
    let ?st1 = "st\<lparr>wire := rs, ops := ops st @ [Read], data := data st @ stored cfg r\<rparr>"
    show ?thesis
    proof (cases "truthy (returned cfg r)")
      case True
      from "1.prems" have "close_loop cfg ?st1 = Some st'"
        by (subst (asm) close_loop.simps) (simp add: read_buffer_Cons [OF Cons] True)
      from "1.IH" [OF read_buffer_Cons [OF Cons] refl True this]
      obtain d where "drains cfg d" "rs = d @ wire st'" by auto
      then have "drains cfg (r # d) \<and> wire st = (r # d) @ wire st'"
        using True Cons by simp
      then show ?thesis by blast
    next
      case False
      from "1.prems" have "st' = ?st1"
        by (subst (asm) close_loop.simps) (simp add: read_buffer_Cons [OF Cons] False)
      then have "drains cfg [r] \<and> wire st = [r] @ wire st'"
        using False Cons by simp
      then show ?thesis by blast
    qed
  qed
qed

lemma send_command_Some:
  "encode_utf8 cfg s = Some b \<Longrightarrow> send_command k cfg s st = Inr (perform (Send b) st)"
  by (cases k) (simp_all add: SQMLE_send_command_def SQMLU_send_command_def)

lemma send_command_None:
  "encode_utf8 cfg s = None \<Longrightarrow> send_command k cfg s st = Inl EncodeError"
  by (cases k) (simp_all add: SQMLE_send_command_def SQMLU_send_command_def)

lemma sanity_check_good:
  "decode_utf8 cfg m = Some t \<Longrightarrow> t \<noteq> [] \<Longrightarrow> sanity_check cfg (returned cfg (RecvBytes m)) = Inr t"
  by (simp add: sanity_check_def returned_def)



lemma stored_good:
  "decode_utf8 cfg m = Some t \<Longrightarrow> t \<noteq> [] \<Longrightarrow> stored cfg (RecvBytes m) = [strip t]"
  by (simp add: stored_def)

lemma close_connection_drains:
  "drains cfg d \<Longrightarrow> wire st = d @ rest \<Longrightarrow>
   close_connection k cfg st =
     Some (st\<lparr>wire := rest, ops := ops st @ linger k @ replicate (length d) Read @ [Close],
              data := data st @ concat (map (stored cfg) d)\<rparr>)"
proof (cases k)
  case SQM_LE
  assume d: "drains cfg d" and w: "wire st = d @ rest"
  have "wire (perform SetLinger st) = d @ rest" using w by (simp add: perform_def)
  from close_loop_drains [OF d this] SQM_LE show ?thesis
    by (simp add: SQMLE_close_connection_def perform_def linger_def)
next
  case SQM_LU
  assume d: "drains cfg d" and w: "wire st = d @ rest"
  from close_loop_drains [OF d w] SQM_LU show ?thesis
    by (simp add: SQMLU_close_connection_def perform_def linger_def)
qed

lemma start_connection_eq: "start_connection k st = perform Open st"
  by (cases k) (simp_all add: SQMLE_start_connection_def SQMLU_start_connection_def)


text \<open>The reset with enough frames, and with too few.\<close>

lemma reset_device_within_enough:
  "3 \<le> r \<Longrightarrow> reset_device_within r k cfg st = map_option (Pair None) (reset_device k cfg st)"
  by (simp add: reset_device_within_def)

lemma reset_device_within_short:
  "r < 3 \<Longrightarrow> \<exists>st'. reset_device_within r k cfg st = Some (Some RecursionError, st') \<and>
      wire st' = wire st \<and> data st' = data st"
  by (cases k) (auto simp: reset_device_within_def perform_def)

text \<open>One step of the exchange, in its cases.\<close>

lemma sar_no_room:
  "room < 2 \<Longrightarrow> SQM_send_and_receive k cfg room s tries st = Some (Inl RecursionError, st)"
  by (subst SQM_send_and_receive.simps) simp

lemma sar_success:
  assumes enc: "encode_utf8 cfg s = Some b" and w: "wire st = RecvBytes m # rest"
    and dec: "decode_utf8 cfg m = Some t" and ne: "t \<noteq> []" and room: "2 \<le> room"
  shows "SQM_send_and_receive k cfg room s tries st =
     Some (Inr t, st\<lparr>wire := rest, ops := ops st @ [Send b, Sleep long_s, Read],
                     data := data st @ [strip t]\<rparr>)"
proof -
  let ?st1 = "perform (Sleep long_s) (perform (Send b) st)"
  have w1: "wire ?st1 = RecvBytes m # rest"
    using w by (simp add: perform_def)
  have nr: "\<not> room < 2" using room by simp
  have "SQM_send_and_receive k cfg room s tries st =
      Some (Inr t, ?st1\<lparr>wire := rest, ops := ops ?st1 @ [Read],
                         data := data ?st1 @ stored cfg (RecvBytes m)\<rparr>)"
    by (subst SQM_send_and_receive.simps)
       (simp add: nr send_command_Some [OF enc] read_buffer_Cons [OF w1]
          sanity_check_good [OF dec ne])
  then show ?thesis
    by (simp add: stored_good [OF dec ne] perform_def)
qed




text \<open>A command that cannot be encoded raises before anything is sent or read.\<close>

lemma sar_unencodable:
  "encode_utf8 cfg s = None \<Longrightarrow> 2 \<le> room \<Longrightarrow>
   SQM_send_and_receive k cfg room s tries st = Some (Inl EncodeError, st)"
  by (subst SQM_send_and_receive.simps) (simp add: send_command_None)










lemma count_list_replicate_other: "x \<noteq> y \<Longrightarrow> count_list (replicate n x) y = 0"
  by (induction n) simp_all






lemma close_connection_Some:
  "close_connection k cfg st = Some st' \<Longrightarrow> \<exists>d. drains cfg d \<and> wire st = d @ wire st'"
proof (cases k)
  case SQM_LE
  assume "close_connection k cfg st = Some st'"
  with SQM_LE obtain st1 where c: "close_loop cfg (perform SetLinger st) = Some st1"
    and s: "st' = perform Close st1"
    by (auto simp: SQMLE_close_connection_def)
  from close_loop_Some [OF c] s show ?thesis by (simp add: perform_def)
next
  case SQM_LU
  assume "close_connection k cfg st = Some st'"
  with SQM_LU obtain st1 where c: "close_loop cfg st = Some st1"
    and s: "st' = perform Close st1"
    by (auto simp: SQMLU_close_connection_def)
  from close_loop_Some [OF c] s show ?thesis by (simp add: perform_def)
qed

lemma count_close_ops: "count_list (linger k @ replicate n Read @ [Close]) Close = 1"
  by (cases k) (simp_all add: linger_def count_list_replicate_other)

lemma strip_ends:
  "strip t = [] \<or> (\<not> isspace (hd (strip t)) \<and> \<not> isspace (last (strip t)))"
proof -
  let ?u = "dropWhile isspace t"
  let ?v = "dropWhile isspace (rev ?u)"
  show ?thesis
  proof (cases "?v = []")
    case True
    then show ?thesis by (simp add: strip_def)
  next
    case False
    then have hv: "\<not> isspace (hd ?v)" by (rule hd_dropWhile)
    from False have "?u \<noteq> []" by (metis dropWhile.simps(1) rev.simps(1))
    then have hu: "\<not> isspace (hd ?u)" by (rule hd_dropWhile)
    have "rev ?u = takeWhile isspace (rev ?u) @ ?v" by simp
    then have "last (rev ?u) = last ?v" using False by (metis last_appendR)
    then have "last ?v = hd ?u" using \<open>?u \<noteq> []\<close> by (simp add: last_rev)
    with hu hv False show ?thesis
      by (simp add: strip_def hd_rev last_rev)
  qed
qed

lemma trimmed_strip: "trimmed (strip t)"
  using strip_ends [of t] by (cases "strip t") (auto simp: trimmed_def)

lemma trimmed_stored: "list_all trimmed (stored cfg x)"
  by (simp add: stored_def trimmed_strip split: recv_outcome.splits option.splits)

lemma trimmed_stored_concat: "list_all trimmed (concat (map (stored cfg) c))"
  by (induction c) (simp_all add: trimmed_stored)

lemma perform_fields [simp]:
  "wire (perform a st) = wire st" "data (perform a st) = data st"
  "ops (perform a st) = ops st @ [a]"
  by (simp_all add: perform_def)

lemma send_command_Inr:
  "send_command k cfg s st = Inr st1 \<Longrightarrow> wire st1 = wire st \<and> data st1 = data st"
  by (cases k)
     (auto simp: SQMLE_send_command_def SQMLU_send_command_def split: option.splits)

lemma read_buffer_consumes:
  "read_buffer cfg st = Some (r, st') \<Longrightarrow>
   \<exists>x. wire st = x # wire st' \<and> data st' = data st @ stored cfg x \<and> r = returned cfg x"
  by (auto simp: read_buffer_eq split: list.splits)

lemma close_connection_consumes:
  "close_connection k cfg st = Some st' \<Longrightarrow>
   \<exists>c. wire st = c @ wire st' \<and> data st' = data st @ concat (map (stored cfg) c)"
proof -
  assume c: "close_connection k cfg st = Some st'"
  have "\<exists>d. drains cfg d \<and> wire st = d @ wire st'"
  proof (cases k)
    case SQM_LE
    with c obtain st1 where l: "close_loop cfg (perform SetLinger st) = Some st1"
      and s: "st' = perform Close st1"
      by (auto simp: SQMLE_close_connection_def)
    from close_loop_Some [OF l] s show ?thesis by simp
  next
    case SQM_LU
    with c obtain st1 where l: "close_loop cfg st = Some st1"
      and s: "st' = perform Close st1"
      by (auto simp: SQMLU_close_connection_def)
    from close_loop_Some [OF l] s show ?thesis by simp
  qed
  then obtain d where d: "drains cfg d" and w: "wire st = d @ wire st'" by blast
  from close_connection_drains [OF d w, of k] c
  have "st' = st\<lparr>wire := wire st',
      ops := ops st @ linger k @ replicate (length d) Read @ [Close],
      data := data st @ concat (map (stored cfg) d)\<rparr>" by simp
  then have "data st' = data st @ concat (map (stored cfg) d)"
    by (metis sqm.select_convs(1) sqm.surjective sqm.update_convs(1,2,3))
  with w show ?thesis by blast
qed

lemma reset_device_consumes:
  "reset_device k cfg st = Some st' \<Longrightarrow>
   \<exists>c. wire st = c @ wire st' \<and> data st' = data st @ concat (map (stored cfg) c)"
  by (auto simp: reset_device_def start_connection_eq split: option.splits
           dest!: close_connection_consumes)

lemma sanity_check_Inr:
  "sanity_check cfg (returned cfg x) = Inr t \<Longrightarrow>
   \<exists>m. x = RecvBytes m \<and> decode_utf8 cfg m = Some t \<and> t \<noteq> []"
  by (auto simp: sanity_check_def returned_def
           split: recv_outcome.splits option.splits if_splits)


lemma reset_device_within_consumes:
  "reset_device_within r k cfg st = Some (x, st') \<Longrightarrow>
   \<exists>c. wire st = c @ wire st' \<and> data st' = data st @ concat (map (stored cfg) c)"
proof (cases "r < 3")
  case True
  assume run: "reset_device_within r k cfg st = Some (x, st')"
  from reset_device_within_short [OF True, of k cfg st] run
  have "wire st = [] @ wire st' \<and> data st' = data st @ concat (map (stored cfg) [])"
    by auto
  then show ?thesis by blast
next
  case False
  assume run: "reset_device_within r k cfg st = Some (x, st')"
  from False have "3 \<le> r" by simp
  from run [unfolded reset_device_within_enough [OF this]]
  have "reset_device k cfg st = Some st'" by auto
  then show ?thesis by (rule reset_device_consumes)
qed

lemma sar_consumes:
  "SQM_send_and_receive k cfg room s tries st = Some (res, st') \<Longrightarrow>
   \<exists>c. wire st = c @ wire st' \<and> data st' = data st @ concat (map (stored cfg) c) \<and>
       payload_of cfg c res"
proof (induction k cfg room s tries st arbitrary: res st' rule: SQM_send_and_receive.induct)
  case (1 k cfg room s tries st)
  note run = "1.prems" [unfolded SQM_send_and_receive.simps [of k cfg room s tries st]]
  show ?case
  proof (cases "room < 2")
    case True
    with run have "st' = st" "res = Inl RecursionError" by simp_all
    then have "wire st = [] @ wire st' \<and>
        data st' = data st @ concat (map (stored cfg) []) \<and> payload_of cfg [] res"
      by (simp add: payload_of_def)
    then show ?thesis by blast
  next
    case room: False
    show ?thesis
    proof (cases "send_command k cfg s st")
      case (Inl e)
      with run room have "st' = st" "res = Inl e" by simp_all
      then have "wire st = [] @ wire st' \<and>
          data st' = data st @ concat (map (stored cfg) []) \<and> payload_of cfg [] res"
        by (simp add: payload_of_def)
      then show ?thesis by blast
    next
      case (Inr st1)
      note sc = send_command_Inr [OF Inr]
      show ?thesis
      proof (cases "read_buffer cfg (perform (Sleep long_s) st1)")
        case None
        with run room Inr show ?thesis by simp
      next
        case (Some p)
        obtain byte_m st2 where p: "p = (byte_m, st2)" by (cases p)
        from read_buffer_consumes [OF Some [unfolded p]] sc
        obtain x where x: "wire st = x # wire st2" "data st2 = data st @ stored cfg x"
          "byte_m = returned cfg x" by auto
        show ?thesis
        proof (cases "sanity_check cfg byte_m")
          case (Inr m)
          with run room \<open>send_command k cfg s st = Inr st1\<close> Some p
          have r: "st' = st2" "res = Inr m" by simp_all
          from sanity_check_Inr [OF Inr [unfolded x(3)]]
          have "payload_of cfg [x] res" by (auto simp: payload_of_def r)
          with x r have "wire st = [x] @ wire st' \<and>
              data st' = data st @ concat (map (stored cfg) [x]) \<and> payload_of cfg [x] res"
            by simp
          then show ?thesis by blast
        next
          case (Inl e)
          show ?thesis
          proof (cases "tries \<le> 0")
            case True
            with run room \<open>send_command k cfg s st = Inr st1\<close> Some p Inl
            have r: "st' = perform (PrintErr byte_m) st2" "res = Inl e \<or> res = Inr []"
              by (auto simp: Let_def split: if_splits)
            then have "payload_of cfg [x] res" by (auto simp: payload_of_def)
            with x r have "wire st = [x] @ wire st' \<and>
                data st' = data st @ concat (map (stored cfg) [x]) \<and> payload_of cfg [x] res"
              by simp
            then show ?thesis by blast
          next
            case False
            show ?thesis
            proof (cases "reset_device_within (room - 1) k cfg (perform (Sleep mid_s) st2)")
              case None
              with run room \<open>send_command k cfg s st = Inr st1\<close> Some p Inl False
              show ?thesis by simp
            next
              case reset: (Some q)
              obtain exc st3 where q: "q = (exc, st3)" by (cases q)
              from reset_device_within_consumes [OF reset [unfolded q]]
              obtain c2 where c2: "wire st2 = c2 @ wire st3"
                "data st3 = data st2 @ concat (map (stored cfg) c2)" by auto
              show ?thesis
              proof (cases exc)
                case (Some e')
                with run room \<open>send_command k cfg s st = Inr st1\<close>
                  \<open>read_buffer cfg (perform (Sleep long_s) st1) = Some p\<close> p Inl False reset q
                have r: "st' = st3" "res = Inl e'" by simp_all
                with x c2 have "wire st = (x # c2) @ wire st' \<and>
                    data st' = data st @ concat (map (stored cfg) (x # c2)) \<and>
                    payload_of cfg (x # c2) res"
                  by (simp add: payload_of_def)
                then show ?thesis by blast
              next
                case noexc: None
                show ?thesis
                proof (cases "SQM_send_and_receive k cfg (room - 1) s (tries - 1)
                    (perform (Sleep mid_s) st3)")
                  case None
                  with run room \<open>send_command k cfg s st = Inr st1\<close>
                    \<open>read_buffer cfg (perform (Sleep long_s) st1) = Some p\<close> p Inl False reset q
                    noexc
                  show ?thesis by simp
                next
                  case inner: (Some q')
                  obtain res' st4 where q': "q' = (res', st4)" by (cases q')
                  from "1.IH" [OF room \<open>send_command k cfg s st = Inr st1\<close>
                      \<open>read_buffer cfg (perform (Sleep long_s) st1) = Some p\<close> p [symmetric] Inl
                      False reset q [symmetric] noexc inner [unfolded q']]
                  obtain c3 where c3: "wire st3 = c3 @ wire st4"
                    "data st4 = data st3 @ concat (map (stored cfg) c3)"
                    "payload_of cfg c3 res'" by auto
                  from run room \<open>send_command k cfg s st = Inr st1\<close>
                    \<open>read_buffer cfg (perform (Sleep long_s) st1) = Some p\<close> p Inl False reset q
                    noexc inner q'
                  have r: "res = res'" "wire st' = wire st4" "data st' = data st4"
                    by (auto split: sum.splits)
                  from c3(3) have "payload_of cfg (x # c2 @ c3) res'"
                    by (auto simp: payload_of_def split: sum.splits)
                  with x c2 c3 r have "wire st = (x # c2 @ c3) @ wire st' \<and>
                      data st' = data st @ concat (map (stored cfg) (x # c2 @ c3)) \<and>
                      payload_of cfg (x # c2 @ c3) res"
                    by simp
                  then show ?thesis by blast
                qed
              qed
            qed
          qed
        qed
      qed
    qed
  qed
qed

lemma strip_ok: "strip (py_str ''r,ok\<newline>'') = py_str ''r,ok''"
  by (simp add: strip_def isspace_def py_str_def)

subsection \<open>Discovery\<close>

lemma scan_ports_skip:
  "\<forall>q\<in>set pre. probe_port cfg (env q) = Inr False \<Longrightarrow>
   scan_ports cfg env (pre @ rest) tried = scan_ports cfg env rest (tried @ pre)"
  by (induction pre arbitrary: tried) simp_all

lemma scan_ports_found:
  assumes "\<forall>q\<in>set pre. probe_port cfg (env q) = Inr False"
    and "probe_port cfg (env p) = Inr True"
  shows "scan_ports cfg env (pre @ p # post) tried = (Inr (Some p), tried @ pre @ [p])"
  using assms by (simp add: scan_ports_skip)

lemma scan_ports_raises:
  assumes "\<forall>q\<in>set pre. probe_port cfg (env q) = Inr False"
    and "probe_port cfg (env p) = Inl e"
  shows "scan_ports cfg env (pre @ p # post) tried = (Inl e, tried @ pre @ [p])"
  using assms by (simp add: scan_ports_skip)

lemma scan_ports_exhausted:
  assumes "\<forall>q\<in>set ports. probe_port cfg (env q) = Inr False"
  shows "scan_ports cfg env ports tried = (Inr None, tried @ ports)"
  using scan_ports_skip [OF assms, of "[]" tried] by simp

lemma ports_win_first_two:
  "ports_win =
     [py_str ''COM0''] @ py_str ''COM1'' # map (\<lambda>num. py_str ''COM'' @ str_of_num num) [2..<100]"
proof -
  have "[0..<100] = 0 # 1 # [2..<100]" by (simp add: upt_conv_Cons)
  then show ?thesis by (simp add: ports_win_def py_str_def str_of_num_def)
qed

text \<open>
  The marker test compares one character with a string of two, so it never holds; the
  properties of the search below do not depend on this.
\<close>

lemma marker_never_accepts: "marker_check cfg buf \<noteq> Inr True"
  by (simp add: marker_check_def py_str_def split: option.splits)

lemma search_loop_keeps_polling:
  "\<forall>x\<in>set evs. \<not> breaks cfg T x \<Longrightarrow> search_loop cfg T evs addr printed = None"
proof (induction evs arbitrary: addr printed)
  case Nil
  show ?case by simp
next
  case (Cons x evs)
  obtain ev now where x: "x = (ev, now)" by (cases x)
  from Cons.prems have rest: "\<forall>y\<in>set evs. \<not> breaks cfg T y" by simp
  from Cons.prems x have nb: "\<not> (pass_raises cfg ev \<and> now - T > 3)"
    by (simp add: breaks_def)
  show ?case
  proof (cases ev)
    case NoDatagram
    with nb have "\<not> now - T > 3" by (simp add: pass_raises_def)
    with NoDatagram x show ?thesis by (simp add: Cons.IH [OF rest])
  next
    case (Datagram buf a)
    with nb x show ?thesis
      by (cases "marker_check cfg buf") (simp_all add: pass_raises_def Cons.IH [OF rest])
  qed
qed

lemma search_loop_breaks:
  "\<forall>x\<in>set pre. \<not> breaks cfg T x \<Longrightarrow> breaks cfg T (ev, now) \<Longrightarrow>
   \<exists>printed'. search_loop cfg T (pre @ (ev, now) # post) addr printed =
      Some (last_sender addr (map fst pre @ [ev]), printed')"
proof (induction pre arbitrary: addr printed)
  case Nil
  from Nil.prems(2) have r: "pass_raises cfg ev" and late: "now - T > 3"
    by (simp_all add: breaks_def)
  show ?case
  proof (cases ev)
    case NoDatagram
    with late show ?thesis by simp
  next
    case (Datagram buf a)
    with r late show ?thesis
      by (cases "marker_check cfg buf") (simp_all add: pass_raises_def)
  qed
next
  case (Cons x pre)
  obtain ev' now' where x: "x = (ev', now')" by (cases x)
  from Cons.prems(1) have rest: "\<forall>y\<in>set pre. \<not> breaks cfg T y" by simp
  from Cons.prems(1) x have nb: "\<not> (pass_raises cfg ev' \<and> now' - T > 3)"
    by (simp add: breaks_def)
  note IH = Cons.IH [OF rest Cons.prems(2)]
  show ?case
  proof (cases ev')
    case NoDatagram
    with nb have "\<not> now' - T > 3" by (simp add: pass_raises_def)
    with NoDatagram x IH [of addr printed] show ?thesis by simp
  next
    case (Datagram buf a)
    show ?thesis
    proof (cases "marker_check cfg buf")
      case (Inl e)
      with nb Datagram have "\<not> now' - T > 3" by (simp add: pass_raises_def)
      with Inl Datagram x IH [of "Some a" printed] show ?thesis by simp
    next
      case (Inr accepted)
      with Datagram x IH [of "Some a" printed] IH [of "Some a" "printed @ [(a, mac_of cfg buf)]"]
      show ?thesis by simp
    qed
  qed
qed

lemma last_sender_None:
  "(last_sender addr evs = None) = (addr = None \<and> list_all (\<lambda>ev. ev = NoDatagram) evs)"
  by (induction addr evs rule: last_sender.induct) simp_all

section \<open>The buffer of collected lines\<close>

text \<open>
  C6. One call of \<^verbatim>\<open>_return_collected\<close> returns the buffer's contents, in their order, and
  leaves the buffer empty and the rest of the object as it was. Hence a second call right
  after the first returns the empty list: two calls in a row return \<open>(data, [])\<close>.
\<close>

theorem return_collected_drains:
  "fst (return_collected st) = data st \<and>
   snd (return_collected st) = st\<lparr>data := []\<rparr> \<and>
   fst (return_collected (snd (return_collected st))) = [] \<and>
   data (snd (return_collected (snd (return_collected st)))) = []"
  by (simp add: return_collected_def)

section \<open>Retries of \<^verbatim>\<open>send_and_receive\<close>\<close>









section \<open>The override in the serial class\<close>

text \<open>
  C10. \<^verbatim>\<open>SQMLU.send_and_receive\<close> computes what the inherited \<^verbatim>\<open>SQM.send_and_receive\<close>
  computes on a serial object: for every configuration, command, retry budget, state
  (hence every sequence of receive outcomes) and number of frames left, the two give the
  same result, the same raised exception, and the same sequence of operations, buffer and
  remaining outcomes; both have no outcome on the same inputs. This holds for the base
  method as a class without the override inherits it, and for the base method called on an
  object of \<^verbatim>\<open>SQMLU\<close> itself.
\<close>

theorem SQMLU_override_equals_base:
  "SQMLU_send_and_receive cfg room s tries st =
     SQM_send_and_receive SQM_LU cfg room s tries st \<and>
   SQMLU_send_and_receive cfg room s tries st =
     SQM_send_and_receive_late_bound cfg room s tries st"
proof
  show "SQMLU_send_and_receive cfg room s tries st =
      SQM_send_and_receive SQM_LU cfg room s tries st"
  proof (induction cfg room s tries st rule: SQMLU_send_and_receive.induct)
    case (1 cfg room s tries st)
    show ?case
    proof (cases "room < 2")
      case True
      then show ?thesis
        by (subst SQMLU_send_and_receive.simps, subst SQM_send_and_receive.simps) simp
    next
      case False
      show ?thesis
        by (subst SQMLU_send_and_receive.simps, subst SQM_send_and_receive.simps)
           (auto simp del: One_nat_def simp: False "1.IH" [OF False]
                 split: sum.splits option.splits prod.splits)
    qed
  qed
  show "SQMLU_send_and_receive cfg room s tries st =
      SQM_send_and_receive_late_bound cfg room s tries st"
    by (subst SQMLU_send_and_receive.simps)
       (simp add: SQM_send_and_receive_late_bound_def)
qed

section \<open>Teardown\<close>

text \<open>
  C7, as the code has it. \<^verbatim>\<open>_close_connection\<close> reads until a read returns nothing (\<^verbatim>\<open>None\<close>
  or no bytes) and then closes the handle, once: whenever the wire starts with reads \<open>d\<close>
  that return data up to a last one that returns nothing, the call ends, having done
  \<open>length d\<close> reads and one close; and whenever the call ends, the wire started so. The
  local string \<^verbatim>\<open>request\<close> is dropped, but the reads go through \<^verbatim>\<open>_read_buffer\<close>: the buffer
  keeps its contents and gains, in order, the stripped line of every teardown read that
  decodes to a non-empty text.
\<close>

theorem close_connection_reads_until_silent:
  "(drains cfg d \<and> wire st = d @ rest \<longrightarrow>
      close_connection k cfg st =
        Some (st\<lparr>wire := rest, ops := ops st @ linger k @ replicate (length d) Read @ [Close],
                 data := data st @ concat (map (stored cfg) d)\<rparr>)) \<and>
   (close_connection k cfg st = Some st' \<longrightarrow>
      (\<exists>d. drains cfg d \<and> wire st = d @ wire st' \<and>
           ops st' = ops st @ linger k @ replicate (length d) Read @ [Close] \<and>
           count_list (linger k @ replicate (length d) Read @ [Close]) Close = 1 \<and>
           data st' = data st @ concat (map (stored cfg) d)))"
proof (intro conjI impI)
  assume "drains cfg d \<and> wire st = d @ rest"
  then show "close_connection k cfg st =
        Some (st\<lparr>wire := rest, ops := ops st @ linger k @ replicate (length d) Read @ [Close],
                 data := data st @ concat (map (stored cfg) d)\<rparr>)"
    by (simp add: close_connection_drains)
next
  assume c: "close_connection k cfg st = Some st'"
  from close_connection_Some [OF c] obtain d' where d: "drains cfg d'"
    and w: "wire st = d' @ wire st'" by blast
  from close_connection_drains [OF d w, of k] c
  have "st' = st\<lparr>wire := wire st',
      ops := ops st @ linger k @ replicate (length d') Read @ [Close],
      data := data st @ concat (map (stored cfg) d')\<rparr>" by simp
  then have "ops st' = ops st @ linger k @ replicate (length d') Read @ [Close]"
    and "data st' = data st @ concat (map (stored cfg) d')"
    by (metis sqm.select_convs(3) sqm.surjective sqm.update_convs(1,2,3),
        metis sqm.select_convs(1) sqm.surjective sqm.update_convs(1,2,3))
  with d w count_close_ops show "\<exists>d. drains cfg d \<and> wire st = d @ wire st' \<and>
           ops st' = ops st @ linger k @ replicate (length d) Read @ [Close] \<and>
           count_list (linger k @ replicate (length d) Read @ [Close]) Close = 1 \<and>
           data st' = data st @ concat (map (stored cfg) d)"
    by blast
qed

theorem close_connection_reads_until_silent_witness:
  "drains (utf8_config False) [RecvBytes (py_bytes ''r,ok\<newline>''), RecvBytes []] \<and>
   close_connection SQM_LE (utf8_config False)
     (fresh [RecvBytes (py_bytes ''r,ok\<newline>''), RecvBytes [], RecvRaises]) =
     Some \<lparr>data = [py_str ''r,ok''], wire = [RecvRaises],
           ops = [SetLinger, Read, Read, Close]\<rparr> \<and>
   (\<exists>d. drains (utf8_config False) d \<and>
        [RecvBytes (py_bytes ''r,ok\<newline>''), RecvBytes [], RecvRaises] = d @ [RecvRaises] \<and>
        [SetLinger, Read, Read, Close] = linger SQM_LE @ replicate (length d) Read @ [Close])"
proof -
  let ?d = "[RecvBytes (py_bytes ''r,ok\<newline>''), RecvBytes []]"
  let ?st = "fresh [RecvBytes (py_bytes ''r,ok\<newline>''), RecvBytes [], RecvRaises]"
  let ?st' = "\<lparr>data = [py_str ''r,ok''], wire = [RecvRaises],
           ops = [SetLinger, Read, Read, Close]\<rparr>"
  have d: "drains (utf8_config False) ?d" by (simp add: run_defs)
  have w: "wire ?st = ?d @ [RecvRaises]" by (simp add: fresh_def)
  from close_connection_reads_until_silent
    [where cfg = "utf8_config False" and d = ?d and st = ?st and rest = "[RecvRaises]"
       and k = SQM_LE] d w
  have run: "close_connection SQM_LE (utf8_config False) ?st = Some ?st'"
    by (simp add: run_defs linger_def strip_def isspace_def)
  from close_connection_reads_until_silent
    [where cfg = "utf8_config False" and st = ?st and st' = ?st' and k = SQM_LE] run
  have "\<exists>d. drains (utf8_config False) d \<and>
        [RecvBytes (py_bytes ''r,ok\<newline>''), RecvBytes [], RecvRaises] = d @ [RecvRaises] \<and>
        [SetLinger, Read, Read, Close] = linger SQM_LE @ replicate (length d) Read @ [Close]"
    by (auto simp: fresh_def)
  with d run show ?thesis by simp
qed

text \<open>
  The claim as stated, that teardown leaves the buffer unchanged, fails: on a serial
  object with an empty buffer whose device still has one line to deliver, teardown ends
  with that line in the buffer.
\<close>

theorem teardown_reads_reach_buffer_counterexample:
  "data (fresh [RecvBytes (py_bytes ''r,ok\<newline>''), RecvBytes []]) = [] \<and>
   close_connection SQM_LU (utf8_config False)
     (fresh [RecvBytes (py_bytes ''r,ok\<newline>''), RecvBytes []]) =
     Some \<lparr>data = [py_str ''r,ok''], wire = [], ops = [Read, Read, Close]\<rparr>"
  by (simp add: SQMLU_close_connection_def close_loop.simps read_buffer_def perform_def
        run_defs strip_def isspace_def)

section \<open>Text delivered to the caller\<close>

text \<open>
  C9. A read whose payload decodes to a non-empty text \<open>t\<close> appends \<open>strip t\<close> to the
  buffer, also when the read is the one of a \<^verbatim>\<open>send_and_receive\<close> call: the call returns
  \<open>t\<close>, and a drain after it delivers the buffer with \<open>strip t\<close> at its end. When \<open>t\<close> has no
  white space at its ends, the drain delivers the very string the call returned; such
  runs exist. The call gets to its read when the interpreter has room for its own frame and
  one below it; with less it raises \<^verbatim>\<open>RecursionError\<close> before any read, and nothing is
  read or buffered.
\<close>

theorem successful_read_is_buffered:
  assumes "encode_utf8 cfg s = Some b" and "wire st = RecvBytes m # rest"
    and "decode_utf8 cfg m = Some t" and "t \<noteq> []"
  shows "(\<exists>st1. read_buffer cfg st = Some (Some m, st1) \<and> data st1 = data st @ [strip t]) \<and>
     (2 \<le> room \<longrightarrow>
       (\<exists>st2. SQM_send_and_receive k cfg room s tries st = Some (Inr t, st2) \<and>
         data st2 = data st @ [strip t] \<and>
         fst (return_collected st2) = data st @ [strip t] \<and>
         (strip t = t \<longrightarrow> t \<in> set (fst (return_collected st2))))) \<and>
     (room < 2 \<longrightarrow>
       SQM_send_and_receive k cfg room s tries st = Some (Inl RecursionError, st)) \<and>
     (\<exists>st0 st2 u. SQM_send_and_receive k (utf8_config False) 2 (py_str ''rx'') tries st0 =
         Some (Inr u, st2) \<and> u \<in> set (fst (return_collected st2)))"
proof (intro conjI)
  show "\<exists>st1. read_buffer cfg st = Some (Some m, st1) \<and> data st1 = data st @ [strip t]"
    using assms(2-4) by (simp add: read_buffer_eq returned_def stored_def)
  show "2 \<le> room \<longrightarrow>
       (\<exists>st2. SQM_send_and_receive k cfg room s tries st = Some (Inr t, st2) \<and>
         data st2 = data st @ [strip t] \<and>
         fst (return_collected st2) = data st @ [strip t] \<and>
         (strip t = t \<longrightarrow> t \<in> set (fst (return_collected st2))))"
  proof
    assume "2 \<le> room"
    from sar_success [OF assms this]
    show "\<exists>st2. SQM_send_and_receive k cfg room s tries st = Some (Inr t, st2) \<and>
         data st2 = data st @ [strip t] \<and>
         fst (return_collected st2) = data st @ [strip t] \<and>
         (strip t = t \<longrightarrow> t \<in> set (fst (return_collected st2)))"
      by (simp add: return_collected_def)
  qed
  show "room < 2 \<longrightarrow>
       SQM_send_and_receive k cfg room s tries st = Some (Inl RecursionError, st)"
    by (simp add: sar_no_room)
  have enc: "encode_utf8 (utf8_config False) (py_str ''rx'') = Some (py_bytes ''rx'')"
    by (simp add: run_defs)
  have dec: "decode_utf8 (utf8_config False) (py_bytes ''r,ok'') = Some (py_str ''r,ok'')"
    by (simp add: run_defs)
  have ne: "py_str ''r,ok'' \<noteq> []" by (simp add: py_str_def)
  have st: "strip (py_str ''r,ok'') = py_str ''r,ok''"
    by (simp add: strip_def isspace_def py_str_def)
  have w: "wire (fresh [RecvBytes (py_bytes ''r,ok'')]) = RecvBytes (py_bytes ''r,ok'') # []"
    by (simp add: fresh_def)
  let ?st2 = "(fresh [RecvBytes (py_bytes ''r,ok'')])\<lparr>wire := [],
      ops := ops (fresh [RecvBytes (py_bytes ''r,ok'')]) @
             [Send (py_bytes ''rx''), Sleep long_s, Read],
      data := data (fresh [RecvBytes (py_bytes ''r,ok'')]) @ [strip (py_str ''r,ok'')]\<rparr>"
  have "SQM_send_and_receive k (utf8_config False) 2 (py_str ''rx'') tries
         (fresh [RecvBytes (py_bytes ''r,ok'')]) = Some (Inr (py_str ''r,ok''), ?st2) \<and>
        py_str ''r,ok'' \<in> set (fst (return_collected ?st2))"
    by (simp add: sar_success [OF enc w dec ne order_refl] return_collected_def st)
  then show "\<exists>st0 st2 u. SQM_send_and_receive k (utf8_config False) 2 (py_str ''rx'') tries st0 =
         Some (Inr u, st2) \<and> u \<in> set (fst (return_collected st2))"
    by blast
qed

theorem successful_read_is_buffered_witness:
  "encode_utf8 (utf8_config False) (py_str ''rx'') = Some (py_bytes ''rx'') \<and>
   decode_utf8 (utf8_config False) (py_bytes ''r,ok\<newline>'') = Some (py_str ''r,ok\<newline>'') \<and>
   (\<exists>st2. SQM_send_and_receive SQM_LU (utf8_config False) 2 (py_str ''rx'') 3
          (fresh [RecvBytes (py_bytes ''r,ok\<newline>'')]) = Some (Inr (py_str ''r,ok\<newline>''), st2) \<and>
        fst (return_collected st2) = [py_str ''r,ok''])"
proof -
  have enc: "encode_utf8 (utf8_config False) (py_str ''rx'') = Some (py_bytes ''rx'')"
    by (simp add: run_defs)
  have dec: "decode_utf8 (utf8_config False) (py_bytes ''r,ok\<newline>'') = Some (py_str ''r,ok\<newline>'')"
    by (simp add: run_defs)
  have ne: "py_str ''r,ok\<newline>'' \<noteq> []" by (simp add: py_str_def)
  have w: "wire (fresh [RecvBytes (py_bytes ''r,ok\<newline>'')]) =
      RecvBytes (py_bytes ''r,ok\<newline>'') # []"
    by (simp add: fresh_def)
  from successful_read_is_buffered [OF enc w dec ne, where k = SQM_LU and tries = 3
      and room = 2]
  have "\<exists>st2. SQM_send_and_receive SQM_LU (utf8_config False) 2 (py_str ''rx'') 3
          (fresh [RecvBytes (py_bytes ''r,ok\<newline>'')]) = Some (Inr (py_str ''r,ok\<newline>''), st2) \<and>
        fst (return_collected st2) = [py_str ''r,ok'']"
    by (auto simp: fresh_def strip_ok)
  with enc dec show ?thesis by blast
qed

text \<open>
  C5, as the code has it. The line a read stores is the decoded payload stripped of the
  white space at its two ends, so every stored line, and every line of a drain of a buffer
  filled by reads, neither begins nor ends with a white-space character. What
  \<^verbatim>\<open>send_and_receive\<close> returns is the empty string or the decoded text of a received
  payload, as received: it is not stripped.
\<close>

theorem stored_lines_are_stripped:
  "trimmed (strip t) \<and>
   (read_buffer cfg st = Some (r, st1) \<longrightarrow>
      data st1 = data st \<or>
      (\<exists>m u. RecvBytes m \<in> set (wire st) \<and> decode_utf8 cfg m = Some u \<and> u \<noteq> [] \<and>
             data st1 = data st @ [strip u])) \<and>
   (SQM_send_and_receive k cfg room s tries st = Some (res, st') \<longrightarrow>
      (\<exists>new. data st' = data st @ new \<and> list_all trimmed new) \<and>
      (list_all trimmed (data st) \<longrightarrow> list_all trimmed (fst (return_collected st')))) \<and>
   (SQM_send_and_receive k cfg room s tries st = Some (Inr v, st') \<longrightarrow>
      v = [] \<or> (\<exists>m. RecvBytes m \<in> set (wire st) \<and> decode_utf8 cfg m = Some v))"
proof (intro conjI impI)
  show "trimmed (strip t)" by (rule trimmed_strip)
next
  assume "read_buffer cfg st = Some (r, st1)"
  from read_buffer_consumes [OF this]
  obtain x where x: "wire st = x # wire st1" "data st1 = data st @ stored cfg x" by blast
  show "data st1 = data st \<or>
      (\<exists>m u. RecvBytes m \<in> set (wire st) \<and> decode_utf8 cfg m = Some u \<and> u \<noteq> [] \<and>
             data st1 = data st @ [strip u])"
  proof (cases "stored cfg x = []")
    case True
    with x show ?thesis by simp
  next
    case False
    then obtain m u where "x = RecvBytes m" "decode_utf8 cfg m = Some u" "u \<noteq> []"
      "stored cfg x = [strip u]"
      by (auto simp: stored_def split: recv_outcome.splits option.splits if_splits)
    with x show ?thesis by auto
  qed
next
  assume "SQM_send_and_receive k cfg room s tries st = Some (res, st')"
  from sar_consumes [OF this]
  obtain c where c: "data st' = data st @ concat (map (stored cfg) c)" by blast
  then show "\<exists>new. data st' = data st @ new \<and> list_all trimmed new"
    using trimmed_stored_concat by blast
  assume "list_all trimmed (data st)"
  with c show "list_all trimmed (fst (return_collected st'))"
    by (simp add: return_collected_def trimmed_stored_concat)
next
  assume "SQM_send_and_receive k cfg room s tries st = Some (Inr v, st')"
  from sar_consumes [OF this]
  obtain c where c: "wire st = c @ wire st'" "payload_of cfg c (Inr v)" by blast
  then show "v = [] \<or> (\<exists>m. RecvBytes m \<in> set (wire st) \<and> decode_utf8 cfg m = Some v)"
    by (auto simp: payload_of_def)
qed

theorem stored_lines_are_stripped_witness:
  "read_buffer (utf8_config False) (fresh [RecvBytes (py_bytes ''r,ok\<newline>'')]) =
     Some (Some (py_bytes ''r,ok\<newline>''),
           \<lparr>data = [py_str ''r,ok''], wire = [], ops = [Read]\<rparr>) \<and>
   SQM_send_and_receive SQM_LE (utf8_config False) 2 (py_str ''rx'') 0
       (fresh [RecvBytes (py_bytes ''r,ok\<newline>'')]) =
     Some (Inr (py_str ''r,ok\<newline>''),
           \<lparr>data = [py_str ''r,ok''], wire = [],
            ops = [Send (py_bytes ''rx''), Sleep long_s, Read]\<rparr>) \<and>
   list_all trimmed (data (fresh [RecvBytes (py_bytes ''r,ok\<newline>'')])) \<and>
   trimmed (py_str ''r,ok'') \<and>
   list_all trimmed (fst (return_collected
           \<lparr>data = [py_str ''r,ok''], wire = [],
            ops = [Send (py_bytes ''rx''), Sleep long_s, Read]\<rparr>))"
proof -
  let ?st = "fresh [RecvBytes (py_bytes ''r,ok\<newline>'')]"
  let ?st' = "\<lparr>data = [py_str ''r,ok''], wire = [],
            ops = [Send (py_bytes ''rx''), Sleep long_s, Read]\<rparr>"
  have rb: "read_buffer (utf8_config False) ?st =
     Some (Some (py_bytes ''r,ok\<newline>''),
           \<lparr>data = [py_str ''r,ok''], wire = [], ops = [Read]\<rparr>)"
    by (simp add: read_buffer_eq run_defs strip_def isspace_def)
  have enc: "encode_utf8 (utf8_config False) (py_str ''rx'') = Some (py_bytes ''rx'')"
    by (simp add: run_defs)
  have dec: "decode_utf8 (utf8_config False) (py_bytes ''r,ok\<newline>'') = Some (py_str ''r,ok\<newline>'')"
    by (simp add: run_defs)
  have run: "SQM_send_and_receive SQM_LE (utf8_config False) 2 (py_str ''rx'') 0 ?st =
     Some (Inr (py_str ''r,ok\<newline>''), ?st')"
    using sar_success [OF enc _ dec, where st = ?st and rest = "[]" and k = SQM_LE and tries = 0 and room = 2]
    by (simp add: fresh_def strip_ok) (simp add: py_str_def)
  have t0: "list_all trimmed (data ?st)" by (simp add: fresh_def)
  from stored_lines_are_stripped
    [where t = "py_str ''r,ok\<newline>''" and cfg = "utf8_config False" and st = ?st
       and k = SQM_LE and s = "py_str ''rx''" and tries = 0 and room = 2 and res = "Inr (py_str ''r,ok\<newline>'')"
       and st' = ?st']
    run t0
  have "trimmed (strip (py_str ''r,ok\<newline>''))"
    and "list_all trimmed (fst (return_collected ?st'))" by simp_all
  with rb run t0 show ?thesis by (simp add: strip_ok)
qed

text \<open>
  The claim as stated fails for the returned string, and for line breaks inside a payload:
  a reply \<^verbatim>\<open>b"r,ok\n"\<close> is returned as \<^verbatim>\<open>"r,ok\n"\<close>, which ends with a line break, and a
  payload \<^verbatim>\<open>b"a\nb"\<close> is stored as \<^verbatim>\<open>"a\nb"\<close>.
\<close>

theorem returned_text_keeps_newline_counterexample:
  "SQM_send_and_receive SQM_LU (utf8_config False) 2 (py_str ''rx'') 0
       (fresh [RecvBytes (py_bytes ''r,ok\<newline>'')]) =
     Some (Inr (py_str ''r,ok\<newline>''),
           \<lparr>data = [py_str ''r,ok''], wire = [],
            ops = [Send (py_bytes ''rx''), Sleep long_s, Read]\<rparr>) \<and>
   \<not> newline_free (py_str ''r,ok\<newline>'') \<and> \<not> trimmed (py_str ''r,ok\<newline>'') \<and>
   read_buffer (utf8_config False) (fresh [RecvBytes (py_bytes ''a\<newline>b'')]) =
     Some (Some (py_bytes ''a\<newline>b''),
           \<lparr>data = [py_str ''a\<newline>b''], wire = [], ops = [Read]\<rparr>) \<and>
   \<not> newline_free (py_str ''a\<newline>b'')"
proof -
  have enc: "encode_utf8 (utf8_config False) (py_str ''rx'') = Some (py_bytes ''rx'')"
    by (simp add: run_defs)
  have dec: "decode_utf8 (utf8_config False) (py_bytes ''r,ok\<newline>'') = Some (py_str ''r,ok\<newline>'')"
    by (simp add: run_defs)
  have run: "SQM_send_and_receive SQM_LU (utf8_config False) 2 (py_str ''rx'') 0
       (fresh [RecvBytes (py_bytes ''r,ok\<newline>'')]) =
     Some (Inr (py_str ''r,ok\<newline>''),
           \<lparr>data = [py_str ''r,ok''], wire = [],
            ops = [Send (py_bytes ''rx''), Sleep long_s, Read]\<rparr>)"
    using sar_success [OF enc _ dec, where st = "fresh [RecvBytes (py_bytes ''r,ok\<newline>'')]"
        and rest = "[]" and k = SQM_LU and tries = 0 and room = 2]
    by (simp add: fresh_def strip_ok) (simp add: py_str_def)
  have rb: "read_buffer (utf8_config False) (fresh [RecvBytes (py_bytes ''a\<newline>b'')]) =
     Some (Some (py_bytes ''a\<newline>b''),
           \<lparr>data = [py_str ''a\<newline>b''], wire = [], ops = [Read]\<rparr>)"
    by (simp add: read_buffer_eq run_defs strip_def isspace_def)
  have "\<not> newline_free (py_str ''r,ok\<newline>'')" "\<not> trimmed (py_str ''r,ok\<newline>'')"
    "\<not> newline_free (py_str ''a\<newline>b'')"
    by (simp_all add: newline_free_def trimmed_def py_str_def isspace_def)
  with run rb show ?thesis by simp
qed

section \<open>Discovery\<close>

text \<open>
  C4, as the code has it. Serial discovery probes the candidate ports in the order of the
  list. A port that opens and answers a text whose first character is not \<^verbatim>\<open>"i"\<close> is skipped.
  The first port whose answer starts with \<^verbatim>\<open>"i"\<close> is returned, and \<^verbatim>\<open>serial.Serial\<close> has been
  called on the ports up to it and on no later one. When every candidate is skipped (or
  there is none, as for any platform name but \<^verbatim>\<open>linux2\<close> and \<^verbatim>\<open>win32\<close>) the method raises the
  assertion error that reports that no device was found. A port that cannot be opened, or
  whose answer is empty or undecodable, is not skipped: the exception it raises ends the
  search at that port.
\<close>

theorem serial_search_first_match_or_exception:
  "(candidate_ports os_in_use = pre @ p # post \<and>
    (\<forall>q\<in>set pre. probe_port cfg (env q) = Inr False) \<and> probe_port cfg (env p) = Inr True \<longrightarrow>
      SQMLU_search cfg os_in_use env = (Inr p, pre @ [p])) \<and>
   (candidate_ports os_in_use = pre @ p # post \<and>
    (\<forall>q\<in>set pre. probe_port cfg (env q) = Inr False) \<and> probe_port cfg (env p) = Inl e \<longrightarrow>
      SQMLU_search cfg os_in_use env = (Inl e, pre @ [p])) \<and>
   ((\<forall>q\<in>set (candidate_ports os_in_use). probe_port cfg (env q) = Inr False) \<longrightarrow>
      SQMLU_search cfg os_in_use env = (Inl AssertionError, candidate_ports os_in_use)) \<and>
   probe_port cfg CannotOpen = Inl SerialException \<and>
   (encode_utf8 cfg (py_str ''ix'') = Some b \<and> decode_utf8 cfg line = Some [] \<longrightarrow>
      probe_port cfg (Answers line) = Inl IndexError) \<and>
   (encode_utf8 cfg (py_str ''ix'') = Some b \<and> decode_utf8 cfg line = Some (c # cs) \<longrightarrow>
      probe_port cfg (Answers line) = Inr (c = 105))"
  by (simp add: SQMLU_search_def scan_ports_found scan_ports_raises scan_ports_exhausted
        probe_port_def py_str_def)

theorem serial_search_first_match_or_exception_witness:
  "candidate_ports (py_str ''win32'') = [py_str ''COM0''] @ py_str ''COM1'' # map (\<lambda>num. py_str ''COM'' @ str_of_num num) [2..<100] \<and>
   probe_port (utf8_config False) (Answers (py_bytes ''r,x'')) = Inr False \<and>
   probe_port (utf8_config False) (Answers (py_bytes ''iXYZ'')) = Inr True \<and>
   probe_port (utf8_config False) (Answers []) = Inl IndexError \<and>
   SQMLU_search (utf8_config False) (py_str ''win32'')
     (\<lambda>port. if port = py_str ''COM0'' then Answers (py_bytes ''r,x'')
             else if port = py_str ''COM1'' then Answers (py_bytes ''iXYZ'')
             else CannotOpen) =
     (Inr (py_str ''COM1''), [py_str ''COM0'', py_str ''COM1'']) \<and>
   SQMLU_search (utf8_config False) (py_str ''win32'')
     (\<lambda>port. if port = py_str ''COM0'' then Answers (py_bytes ''r,x'')
             else if port = py_str ''COM1'' then Answers []
             else CannotOpen) =
     (Inl IndexError, [py_str ''COM0'', py_str ''COM1'']) \<and>
   SQMLU_search (utf8_config False) (py_str ''linux'') (\<lambda>port. Answers (py_bytes ''iXYZ'')) =
     (Inl AssertionError, [])"
proof -
  let ?cfg = "utf8_config False"
  let ?env1 = "\<lambda>port. if port = py_str ''COM0'' then Answers (py_bytes ''r,x'')
             else if port = py_str ''COM1'' then Answers (py_bytes ''iXYZ'')
             else CannotOpen"
  let ?env2 = "\<lambda>port. if port = py_str ''COM0'' then Answers (py_bytes ''r,x'')
             else if port = py_str ''COM1'' then Answers []
             else CannotOpen"
  let ?env3 = "\<lambda>port :: str. Answers (py_bytes ''iXYZ'')"
  have cand: "candidate_ports (py_str ''win32'') =
      [py_str ''COM0''] @ py_str ''COM1'' # map (\<lambda>num. py_str ''COM'' @ str_of_num num) [2..<100]"
    using ports_win_first_two by (simp add: candidate_ports_def py_str_def)
  have none: "candidate_ports (py_str ''linux'') = []"
    by (simp add: candidate_ports_def py_str_def)
  have p0: "probe_port ?cfg (Answers (py_bytes ''r,x'')) = Inr False"
    and p1: "probe_port ?cfg (Answers (py_bytes ''iXYZ'')) = Inr True"
    and p2: "probe_port ?cfg (Answers []) = Inl IndexError"
    by (simp_all add: probe_port_def run_defs)
  have ne: "py_str ''COM1'' \<noteq> py_str ''COM0''" by (simp add: py_str_def)
  have a: "SQMLU_search ?cfg (py_str ''win32'') ?env1 =
      (Inr (py_str ''COM1''), [py_str ''COM0'', py_str ''COM1''])"
    using serial_search_first_match_or_exception
      [where os_in_use = "py_str ''win32''" and pre = "[py_str ''COM0'']"
         and p = "py_str ''COM1''" and post = "map (\<lambda>num. py_str ''COM'' @ str_of_num num) [2..<100]" and cfg = ?cfg
         and env = ?env1] cand p0 p1 ne
    by simp
  have b: "SQMLU_search ?cfg (py_str ''win32'') ?env2 =
      (Inl IndexError, [py_str ''COM0'', py_str ''COM1''])"
    using serial_search_first_match_or_exception
      [where os_in_use = "py_str ''win32''" and pre = "[py_str ''COM0'']"
         and p = "py_str ''COM1''" and post = "map (\<lambda>num. py_str ''COM'' @ str_of_num num) [2..<100]" and cfg = ?cfg
         and env = ?env2 and e = IndexError] cand p0 p2 ne
    by simp
  have c: "SQMLU_search ?cfg (py_str ''linux'') ?env3 = (Inl AssertionError, [])"
    using serial_search_first_match_or_exception
      [where os_in_use = "py_str ''linux''" and cfg = ?cfg and env = ?env3] none
    by simp
  from cand p0 p1 p2 a b c show ?thesis by simp
qed

text \<open>
  The claim as stated, that a port which fails to open is skipped, fails: when \<^verbatim>\<open>COM0\<close>
  cannot be opened and the sensor answers on \<^verbatim>\<open>COM1\<close>, the search raises the exception of
  \<^verbatim>\<open>COM0\<close> and never opens \<^verbatim>\<open>COM1\<close>.
\<close>

theorem serial_search_open_failure_counterexample:
  "SQMLU_search (utf8_config False) (py_str ''win32'')
     (\<lambda>port. if port = py_str ''COM1'' then Answers (py_bytes ''iXYZ'') else CannotOpen) =
   (Inl SerialException, [py_str ''COM0''])"
  by (simp add: SQMLU_search_def candidate_ports_def ports_win_first_two probe_port_def
       py_str_def str_of_num_def)

text \<open>
  C1, as the code has it (for a probe that can be encoded). Network discovery polls until
  the first pass that ends in the handler (no datagram pending, or a reply that cannot be
  decoded or has fewer than four characters) more than three seconds after the start, and
  not before: while no pass does so, the method has not returned. It then returns the host
  of the last datagram received, whatever that reply contained: the marker test only
  guards a print. It raises the assertion error that reports that no device was found
  exactly when no datagram was received in those passes.
\<close>

theorem network_search_returns_last_sender:
  assumes "encode_hex cfg (py_str ''000000f6'') = Some probe_bytes"
  shows "(evs = pre @ (ev, now) # post \<and> (\<forall>x\<in>set pre. \<not> breaks cfg T x) \<and>
          breaks cfg T (ev, now) \<longrightarrow>
           (\<exists>printed. SQMLE_search cfg T evs =
              Some (case last_sender None (map fst pre @ [ev]) of
                      None \<Rightarrow> Inl AssertionError
                    | Some (host, port) \<Rightarrow> Inr host,
                    printed))) \<and>
         ((\<forall>x\<in>set evs. \<not> breaks cfg T x) \<longrightarrow> SQMLE_search cfg T evs = None) \<and>
         (last_sender None (map fst pre @ [ev]) = None) =
           list_all (\<lambda>ev. ev = NoDatagram) (map fst pre @ [ev])"
proof (intro conjI impI)
  assume h: "evs = pre @ (ev, now) # post \<and> (\<forall>x\<in>set pre. \<not> breaks cfg T x) \<and>
          breaks cfg T (ev, now)"
  then obtain printed where
    "search_loop cfg T evs None [] = Some (last_sender None (map fst pre @ [ev]), printed)"
    using search_loop_breaks [of pre cfg T ev now post None "[]"] by auto
  then have "SQMLE_search cfg T evs =
              Some (case last_sender None (map fst pre @ [ev]) of
                      None \<Rightarrow> Inl AssertionError
                    | Some (host, port) \<Rightarrow> Inr host,
                    printed)"
    by (simp add: SQMLE_search_def assms)
  then show "\<exists>printed. SQMLE_search cfg T evs =
              Some (case last_sender None (map fst pre @ [ev]) of
                      None \<Rightarrow> Inl AssertionError
                    | Some (host, port) \<Rightarrow> Inr host,
                    printed)" by blast
next
  assume "\<forall>x\<in>set evs. \<not> breaks cfg T x"
  then show "SQMLE_search cfg T evs = None"
    by (simp add: SQMLE_search_def assms search_loop_keeps_polling)
next
  show "(last_sender None (map fst pre @ [ev]) = None) =
           list_all (\<lambda>ev. ev = NoDatagram) (map fst pre @ [ev])"
    by (simp only: last_sender_None simp_thms)
qed

theorem network_search_returns_last_sender_witness:
  "encode_hex (utf8_config False) (py_str ''000000f6'') = Some (py_bytes ''000000f6'') \<and>
   \<not> breaks (utf8_config False) 0
       (Datagram (py_bytes ''000f7000'') (py_str ''10.0.0.5'', 30718), 1) \<and>
   \<not> breaks (utf8_config False) 0 (NoDatagram, 5 / 2) \<and>
   breaks (utf8_config False) 0 (NoDatagram, 7 / 2) \<and>
   (\<exists>printed. SQMLE_search (utf8_config False) 0
     [(Datagram (py_bytes ''000f7000'') (py_str ''10.0.0.5'', 30718), 1),
      (NoDatagram, 5 / 2),
      (NoDatagram, 7 / 2)] = Some (Inr (py_str ''10.0.0.5''), printed)) \<and>
   SQMLE_search (utf8_config False) 0
     [(Datagram (py_bytes ''000f7000'') (py_str ''10.0.0.5'', 30718), 1),
      (NoDatagram, 5 / 2)] = None"
proof -
  let ?cfg = "utf8_config False"
  let ?d = "(Datagram (py_bytes ''000f7000'') (py_str ''10.0.0.5'', 30718), 1 :: real)"
  have enc: "encode_hex ?cfg (py_str ''000000f6'') = Some (py_bytes ''000000f6'')"
    by (simp add: run_defs)
  have n1: "\<not> breaks ?cfg 0 ?d"
    and n2: "\<not> breaks ?cfg 0 (NoDatagram, 5 / 2)"
    and b3: "breaks ?cfg 0 (NoDatagram, 7 / 2)"
    by (simp_all add: breaks_def pass_raises_def marker_check_def run_defs)
  have a: "\<exists>printed. SQMLE_search ?cfg 0 [?d, (NoDatagram, 5 / 2), (NoDatagram, 7 / 2)] =
      Some (Inr (py_str ''10.0.0.5''), printed)"
    using network_search_returns_last_sender
      [OF enc, where evs = "[?d, (NoDatagram, 5 / 2), (NoDatagram, 7 / 2)]"
         and pre = "[?d, (NoDatagram, 5 / 2)]" and ev = NoDatagram and now = "7 / 2"
         and post = "[]" and T = 0] n1 n2 b3
    by simp
  have b: "SQMLE_search ?cfg 0 [?d, (NoDatagram, 5 / 2)] = None"
    using network_search_returns_last_sender
      [OF enc, where evs = "[?d, (NoDatagram, 5 / 2)]" and T = 0] n1 n2
    by simp
  from enc n1 n2 b3 a b show ?thesis by simp
qed

text \<open>
  The claim as stated fails: of two replies, neither of which passes the marker test of
  the code, the search returns the sender of the second, after the window has elapsed,
  where the claim has it fail since no reply was accepted.
\<close>

theorem network_search_counterexample:
  "SQMLE_search (utf8_config False) 0
     [(Datagram (py_bytes ''000f7000'') (py_str ''10.0.0.5'', 30718), 1),
      (Datagram (py_bytes ''zzzzzzzz'') (py_str ''10.0.0.9'', 30718), 2),
      (NoDatagram, 5 / 2),
      (NoDatagram, 7 / 2)] = Some (Inr (py_str ''10.0.0.9''), []) \<and>
   marker_check (utf8_config False) (py_bytes ''000f7000'') = Inr False \<and>
   marker_check (utf8_config False) (py_bytes ''zzzzzzzz'') = Inr False"
  by (simp add: SQMLE_search_def marker_check_def run_defs)

end
